theory Spec2Isabelle
  imports Complex_Main "HOL-Library.Monad_Syntax"
begin

section \<open>Mia Croft: the simulation state of \<open>src/mia-croft/game.js\<close>\<close>

text \<open>
  The class \<open>MiaCroftGame\<close> keeps the whole simulation in one mutable object. The model
  is a record of the fields that decide gameplay; every method becomes a function from
  the record to the updated record. Scene-graph, DOM and HUD calls (\<open>scene.add\<close>,
  \<open>updateHUD\<close>, \<open>showPrompt\<close>, materials, limb animation, camera placement, snowfall)
  only draw and are left out.

  Numbers: positions, velocities and times are JavaScript doubles, modelled as \<open>real\<close>
  (rounding, NaN and infinities are outside the model). Health, ammo, damage and the
  level index only ever hold integers in the source (initial values and every increment
  are integer literals) and are modelled as \<open>int\<close>.

  A method that dereferences \<open>this.player\<close>, \<open>this.boss\<close> or \<open>this.exitGate\<close> while
  it is \<open>null\<close> throws a TypeError in JavaScript; such a method returns an \<open>option\<close>,
  and \<open>None\<close> is the thrown error.

  The clock (\<open>THREE.Clock\<close>) belongs to the library: a reading of
  \<open>clock.getElapsedTime()\<close> is the parameter \<open>now\<close> of the function that takes it
  (one reading per call of an update method), a reading of \<open>clock.getDelta()\<close> the
  parameter \<open>dt\<close> of \<open>gameLoop\<close>.

  Fields of the class that no rule of the simulation reads are left out: \<open>scene\<close>,
  \<open>camera\<close>, \<open>renderer\<close>, \<open>cameraDistance\<close>, \<open>cameraHeight\<close>, \<open>levelObjects\<close>,
  \<open>particles\<close>, \<open>snowParticles\<close>, \<open>currentPuzzle\<close>, \<open>canShoot\<close>,
  \<open>playerAnimState\<close>, and the rotations of the meshes.
\<close>

datatype GameState = MENU | PLAYING | PAUSED | PUZZLE | LEVEL_TRANSITION | GAME_OVER | VICTORY

subsection \<open>Vectors (\<open>THREE.Vector3\<close>)\<close>

record Vector3 =
  vx :: real
  vy :: real
  vz :: real

definition vec :: "real \<Rightarrow> real \<Rightarrow> real \<Rightarrow> Vector3" where
  "vec a b c = \<lparr>vx = a, vy = b, vz = c\<rparr>"

definition distanceToSquared :: "Vector3 \<Rightarrow> Vector3 \<Rightarrow> real" where
  "distanceToSquared a b =
     (vx a - vx b) * (vx a - vx b) + (vy a - vy b) * (vy a - vy b) + (vz a - vz b) * (vz a - vz b)"

definition distanceTo :: "Vector3 \<Rightarrow> Vector3 \<Rightarrow> real" where
  "distanceTo a b = sqrt (distanceToSquared a b)"

definition vlength :: "Vector3 \<Rightarrow> real" where
  "vlength v = sqrt (vx v * vx v + vy v * vy v + vz v * vz v)"

definition subVectors :: "Vector3 \<Rightarrow> Vector3 \<Rightarrow> Vector3" where
  "subVectors a b = vec (vx a - vx b) (vy a - vy b) (vz a - vz b)"

definition addv :: "Vector3 \<Rightarrow> Vector3 \<Rightarrow> Vector3" where
  "addv a b = vec (vx a + vx b) (vy a + vy b) (vz a + vz b)"

definition multiplyScalar :: "Vector3 \<Rightarrow> real \<Rightarrow> Vector3" where
  "multiplyScalar v k = vec (vx v * k) (vy v * k) (vz v * k)"

text \<open>
  \<open>Vector3.normalize\<close> divides by \<open>length() || 1\<close>: the zero vector stays as it is.
\<close>

definition normalizeV :: "Vector3 \<Rightarrow> Vector3" where
  "normalizeV v = multiplyScalar v (1 / (if vlength v = 0 then 1 else vlength v))"

text \<open>
  \<open>applyAxisAngle(axis, angle)\<close> is only called with the unit axes \<open>(1,0,0)\<close> and
  \<open>(0,1,0)\<close>: the right-handed rotations about the x and the y axis.
\<close>

definition applyAxisAngleX :: "Vector3 \<Rightarrow> real \<Rightarrow> Vector3" where
  "applyAxisAngleX v a = vec (vx v) (vy v * cos a - vz v * sin a) (vy v * sin a + vz v * cos a)"

definition applyAxisAngleY :: "Vector3 \<Rightarrow> real \<Rightarrow> Vector3" where
  "applyAxisAngleY v a = vec (vx v * cos a + vz v * sin a) (vy v) (vz v * cos a - vx v * sin a)"

subsection \<open>Game objects\<close>

text \<open>An inventory slot holds \<open>null\<close> or an object \<open>{ type, icon }\<close>.\<close>

record item =
  itype :: string
  icon :: string

record bounds =
  width :: real
  height :: real
  depth :: real

text \<open>
  A platform is a mesh with \<open>userData.isGround\<close>, \<open>userData.isArena\<close> and
  \<open>userData.bounds\<close>; a flag that was never set reads as false, bounds never set as
  \<open>None\<close>.
\<close>

record platform =
  pposition :: Vector3
  isGround :: bool
  isArena :: bool
  pbounds :: "bounds option"

record collectible =
  cposition :: Vector3
  ctype :: string

text \<open>
  An enemy's \<open>userData\<close>. \<open>lastAttack\<close> is undefined until the first melee attack
  (\<open>None\<close>); \<open>canShoot\<close> and \<open>lastShot\<close> are only set for spirits and only read
  for them (false and 0 for a wolf).
\<close>

record enemy =
  eposition :: Vector3
  ehealth :: int
  speed :: real
  edamage :: int
  attackRange :: real
  aggroRange :: real
  etype :: string
  canShoot :: bool
  lastShot :: real
  lastAttack :: "real option"

record projectile =
  prposition :: Vector3
  velocity :: Vector3
  isPlayerProjectile :: bool
  isEnemyProjectile :: bool
  damage :: int
  lifetime :: real
  spawnTime :: real

record bossobj =
  bposition :: Vector3
  blastAttack :: "real option"

text \<open>The \<open>action\<close> closure of an interactable zone calls one of two methods.\<close>

datatype action = TryOpenGateAction | OpenPuzzleAction string

record interactable =
  iposition :: Vector3
  radius :: real
  itag :: string
  iaction :: action

text \<open>
  Deferred callbacks that touch the simulation: the \<open>setTimeout\<close> of
  \<open>openGateAnimation\<close> (calls \<open>nextLevel\<close>), its self-rescheduling \<open>animate\<close>
  closure (holds \<open>targetY\<close>), and the \<open>setTimeout\<close> of a solved puzzle (calls
  \<open>closePuzzle\<close>). JavaScript never cancels them; they wait in \<open>pending\<close> until fired.
\<close>

datatype callback = NextLevelTimer | GateAnimate real | ClosePuzzleTimer

record game =
  state :: GameState
  currentLevel :: int
  maxLevels :: int
  health :: int
  maxHealth :: int
  ammo :: int
  maxAmmo :: int
  inventory :: "item option list"
  player :: "Vector3 option"
  playerVelocity :: Vector3
  playerOnGround :: bool
  playerSpeed :: real
  runMultiplier :: real
  jumpForce :: real
  gravity :: real
  cameraRotationX :: real
  cameraRotationY :: real
  mouseSensitivity :: real
  keys :: "string \<Rightarrow> bool"
  mouseDown :: bool
  pointerLocked :: bool
  platforms :: "platform list"
  collectibles :: "collectible list"
  enemies :: "enemy list"
  interactables :: "interactable list"
  projectiles :: "projectile list"
  boss :: "bossobj option"
  bossHealth :: int
  bossMaxHealth :: int
  puzzleSolved :: bool
  gateOpen :: bool
  exitGate :: "Vector3 option"
  animationTime :: real
  shootCooldown :: real
  lastShootTime :: real
  pending :: "callback list"

text \<open>The constructor (before any level is loaded).\<close>

definition constructor :: game where
  "constructor =
     \<lparr>state = MENU, currentLevel = 1, maxLevels = 3,
      health = 100, maxHealth = 100, ammo = 30, maxAmmo = 30,
      inventory = [None, None, None],
      player = None, playerVelocity = vec 0 0 0, playerOnGround = False,
      playerSpeed = 8, runMultiplier = 1.8, jumpForce = 12, gravity = 25,
      cameraRotationX = 0, cameraRotationY = 0, mouseSensitivity = 0.002,
      keys = (\<lambda>k. False), mouseDown = False, pointerLocked = False,
      platforms = [], collectibles = [], enemies = [], interactables = [], projectiles = [],
      boss = None, bossHealth = 100, bossMaxHealth = 100,
      puzzleSolved = False, gateOpen = False, exitGate = None,
      animationTime = 0, shootCooldown = 0.25, lastShootTime = 0,
      pending = []\<rparr>"

subsection \<open>Level construction\<close>

text \<open>
  \<open>clearLevel\<close> empties the registries and drops the player, the boss and the gate. It
  does not touch \<open>pending\<close>: a timer set in the old level stays scheduled.
\<close>

definition clearLevel :: "game \<Rightarrow> game" where
  "clearLevel s =
     s\<lparr>platforms := [], collectibles := [], enemies := [], interactables := [],
       projectiles := [], player := None, boss := None, exitGate := None\<rparr>"

definition createSnowGround :: "game \<Rightarrow> game" where
  "createSnowGround s =
     s\<lparr>platforms := platforms s @
        [\<lparr>pposition = vec 0 0 0, isGround = True, isArena = False, pbounds = None\<rparr>]\<rparr>"

definition createPlayer :: "game \<Rightarrow> game" where
  "createPlayer s = s\<lparr>player := Some (vec 0 1 0)\<rparr>"

definition createIcePlatform ::
  "real \<Rightarrow> real \<Rightarrow> real \<Rightarrow> real \<Rightarrow> real \<Rightarrow> real \<Rightarrow> game \<Rightarrow> game" where
  "createIcePlatform x y z w h d s =
     s\<lparr>platforms := platforms s @
        [\<lparr>pposition = vec x y z, isGround = False, isArena = False,
          pbounds = Some \<lparr>width = w, height = h, depth = d\<rparr>\<rparr>]\<rparr>"

definition createCollectible :: "real \<Rightarrow> real \<Rightarrow> real \<Rightarrow> string \<Rightarrow> game \<Rightarrow> game" where
  "createCollectible x y z ty s =
     s\<lparr>collectibles := collectibles s @ [\<lparr>cposition = vec x y z, ctype = ty\<rparr>]\<rparr>"

definition createSnowWolf :: "real \<Rightarrow> real \<Rightarrow> real \<Rightarrow> game \<Rightarrow> game" where
  "createSnowWolf x y z s =
     s\<lparr>enemies := enemies s @
        [\<lparr>eposition = vec x y z, ehealth = 30, speed = 4, edamage = 10, attackRange = 2,
          aggroRange = 15, etype = ''wolf'', canShoot = False, lastShot = 0,
          lastAttack = None\<rparr>]\<rparr>"

definition createIceSpirit :: "real \<Rightarrow> real \<Rightarrow> real \<Rightarrow> game \<Rightarrow> game" where
  "createIceSpirit x y z s =
     s\<lparr>enemies := enemies s @
        [\<lparr>eposition = vec x y z, ehealth = 20, speed = 3, edamage = 15, attackRange = 8,
          aggroRange = 20, etype = ''spirit'', canShoot = True, lastShot = 0,
          lastAttack = None\<rparr>]\<rparr>"

text \<open>The gate mesh stands at \<open>(x, y + 2.5, z)\<close>; its trigger zone at \<open>(x, y + 2, z)\<close>.\<close>

definition createExitGate :: "real \<Rightarrow> real \<Rightarrow> real \<Rightarrow> game \<Rightarrow> game" where
  "createExitGate x y z s =
     s\<lparr>exitGate := Some (vec x (y + 2.5) z),
       interactables := interactables s @
        [\<lparr>iposition = vec x (y + 2) z, radius = 3, itag = ''gate'',
          iaction = TryOpenGateAction\<rparr>]\<rparr>"

definition createPuzzleAltar :: "real \<Rightarrow> real \<Rightarrow> real \<Rightarrow> game \<Rightarrow> game" where
  "createPuzzleAltar x y z s =
     s\<lparr>interactables := interactables s @
        [\<lparr>iposition = vec x (y + 1) z, radius = 3, itag = ''puzzle'',
          iaction = OpenPuzzleAction ''runes''\<rparr>]\<rparr>"

definition createKeyArea :: "game \<Rightarrow> game" where
  "createKeyArea s =
     createSnowWolf (-22) 1 8
       (createCollectible (-25) 6.5 5 ''key''
         (createIcePlatform (-25) 5 5 4 0.5 4
           (createIcePlatform (-18) 3.5 8 3 0.5 3
             (createIcePlatform (-10) 2 5 3 0.5 3 s))))"

definition createLevel1 :: "game \<Rightarrow> game" where
  "createLevel1 s =
     (let s1 = s\<lparr>player := Some (vec 0 1 0)\<rparr>;
          s2 = createIcePlatform 25 6 (-15) 5 0.5 5
                 (createIcePlatform 18 4.5 (-10) 4 0.5 4
                   (createIcePlatform 12 3 (-15) 4 0.5 4
                     (createIcePlatform 5 1.5 (-10) 4 0.5 4 s1)));
          s3 = createCollectible 18 6 (-10) ''ammo''
                 (createCollectible 12 4.5 (-15) ''health''
                   (createCollectible 5 3 (-10) ''ammo'' s2));
          s4 = createKeyArea s3;
          s5 = createExitGate 35 0 (-15) s4
      in createSnowWolf 10 1 5 (createSnowWolf (-8) 1 (-5) s5))"

definition createTemple :: "game \<Rightarrow> game" where
  "createTemple s =
     s\<lparr>platforms := platforms s @
        [\<lparr>pposition = vec 0 3.5 (-30), isGround = False, isArena = False,
          pbounds = Some \<lparr>width = 20, height = 1, depth = 30\<rparr>\<rparr>]\<rparr>"

definition createLevel2 :: "game \<Rightarrow> game" where
  "createLevel2 s =
     (let s1 = createTemple (s\<lparr>player := Some (vec 0 1 0)\<rparr>);
          s2 = createIcePlatform 0 4 (-25) 8 0.5 8
                 (createIcePlatform 8 2.5 (-15) 5 0.5 5
                   (createIcePlatform 0 1 (-8) 6 0.5 6 s1));
          s3 = createCollectible 8 4 (-15) ''health'' (createCollectible 0 2.5 (-8) ''ammo'' s2);
          s4 = createIceSpirit 15 2 (-30) (createIceSpirit (-10) 2 (-20) s3);
          s5 = createPuzzleAltar 0 4.5 (-25) s4
      in createExitGate 0 4 (-40) s5)"

text \<open>The four cover platforms of the arena stand at the angles \<open>i / 4 * 2\<pi> + \<pi> / 4\<close>.\<close>

definition coverPlatform :: "real \<Rightarrow> game \<Rightarrow> game" where
  "coverPlatform i s =
     (let angle = (i / 4) * pi * 2 + pi / 4
      in createIcePlatform (cos angle * 12) 1.5 (sin angle * 12) 4 3 4 s)"

definition createBossArena :: "game \<Rightarrow> game" where
  "createBossArena s =
     (let s1 = s\<lparr>platforms := platforms s @
                 [\<lparr>pposition = vec 0 0 0, isGround = False, isArena = True, pbounds = None\<rparr>]\<rparr>
      in coverPlatform 3 (coverPlatform 2 (coverPlatform 1 (coverPlatform 0 s1))))"

definition createBoss :: "game \<Rightarrow> game" where
  "createBoss s =
     s\<lparr>boss := Some \<lparr>bposition = vec 0 1 (-10), blastAttack = None\<rparr>,
       bossHealth := bossMaxHealth s\<rparr>"

definition createLevel3 :: "game \<Rightarrow> game" where
  "createLevel3 s =
     (let s1 = s\<lparr>player := Some (vec 0 1 30), cameraRotationY := pi\<rparr>;
          s2 = createBoss (createBossArena s1)
      in createCollectible 0 1.5 (-15) ''ammo''
           (createCollectible 10 1.5 15 ''ammo''
             (createCollectible (-10) 1.5 15 ''ammo''
               (createCollectible 15 1.5 0 ''health''
                 (createCollectible (-15) 1.5 0 ''health'' s2)))))"

definition loadLevel :: "int \<Rightarrow> game \<Rightarrow> game" where
  "loadLevel levelNum s =
     (let s1 = (clearLevel s)\<lparr>puzzleSolved := False, gateOpen := False\<rparr>;
          s2 = createPlayer (createSnowGround s1)
      in if levelNum = 1 then createLevel1 s2
         else if levelNum = 2 then createLevel2 s2
         else if levelNum = 3 then createLevel3 s2
         else s2)"

subsection \<open>Game mechanics\<close>

definition gameOver :: "game \<Rightarrow> game" where
  "gameOver s = s\<lparr>state := GAME_OVER\<rparr>"

definition victory :: "game \<Rightarrow> game" where
  "victory s = s\<lparr>state := VICTORY\<rparr>"

definition takeDamage :: "int \<Rightarrow> game \<Rightarrow> game" where
  "takeDamage amount s =
     (let s1 = s\<lparr>health := health s - amount\<rparr>
      in if health s1 \<le> 0 then gameOver s1 else s1)"

definition nextLevel :: "game \<Rightarrow> game" where
  "nextLevel s =
     (let s1 = s\<lparr>currentLevel := currentLevel s + 1\<rparr>
      in if currentLevel s1 > maxLevels s1 then victory s1
         else loadLevel (currentLevel s1) s1)"

definition resetPlayer :: "game \<Rightarrow> game" where
  "resetPlayer s = s\<lparr>health := maxHealth s, playerVelocity := vec 0 0 0, playerOnGround := False\<rparr>"

text \<open>
  \<open>shoot\<close>: the two guards return before anything is written. The projectile starts
  1.5 above the player and flies along the camera direction at speed 50.
\<close>

definition shoot :: "real \<Rightarrow> game \<Rightarrow> game option" where
  "shoot now s =
     (if now - lastShootTime s < shootCooldown s then Some s
      else if ammo s \<le> 0 then Some s
      else
        (case player s of
           None \<Rightarrow> None
         | Some p \<Rightarrow>
             (let direction =
                    applyAxisAngleY (applyAxisAngleX (vec 0 0 (-1)) (cameraRotationX s))
                      (cameraRotationY s);
                  proj = \<lparr>prposition = p\<lparr>vy := vy p + 1.5\<rparr>,
                          velocity = multiplyScalar direction 50,
                          isPlayerProjectile = True, isEnemyProjectile = False,
                          damage = 10, lifetime = 2, spawnTime = now\<rparr>
              in Some (s\<lparr>lastShootTime := now, ammo := ammo s - 1,
                         projectiles := projectiles s @ [proj]\<rparr>))))"

text \<open>\<open>splice(i, 1)\<close>: removes the element at index \<open>i\<close>, nothing when \<open>i\<close> is out of range.\<close>

definition splice1 :: "nat \<Rightarrow> 'a list \<Rightarrow> 'a list" where
  "splice1 i xs = take i xs @ drop (Suc i) xs"

text \<open>The key goes into the first empty inventory slot; with no empty slot it is lost.\<close>

fun addKey :: "item option list \<Rightarrow> item option list" where
  "addKey [] = []"
| "addKey (None # slots) = Some \<lparr>itype = ''key'', icon = ''K''\<rparr> # slots"
| "addKey (Some it # slots) = Some it # addKey slots"

text \<open>
  \<open>collectItem(collectible)\<close>: the argument is the object at index \<open>i\<close> of
  \<open>collectibles\<close> (\<open>indexOf\<close> finds that index again, the objects being distinct).
\<close>

definition collectItem :: "nat \<Rightarrow> game \<Rightarrow> game option" where
  "collectItem i s =
     (if i < length (collectibles s) then
        (let ty = ctype (collectibles s ! i);
             s1 = (if ty = ''health'' then s\<lparr>health := min (health s + 25) (maxHealth s)\<rparr>
                   else if ty = ''ammo'' then s\<lparr>ammo := min (ammo s + 10) (maxAmmo s)\<rparr>
                   else if ty = ''key'' then s\<lparr>inventory := addKey (inventory s)\<rparr>
                   else s)
         in Some (s1\<lparr>collectibles := splice1 i (collectibles s1)\<rparr>))
      else None)"

subsection \<open>Gates, puzzles and interaction\<close>

text \<open>\<open>item && item.type === 'key'\<close>\<close>

definition isKey :: "item option \<Rightarrow> bool" where
  "isKey slot = (case slot of None \<Rightarrow> False | Some it \<Rightarrow> itype it = ''key'')"

text \<open>\<open>Array.prototype.findIndex\<close>; \<open>None\<close> stands for \<open>-1\<close>.\<close>

fun findIndex :: "('a \<Rightarrow> bool) \<Rightarrow> 'a list \<Rightarrow> nat option" where
  "findIndex P [] = None"
| "findIndex P (x # xs) = (if P x then Some 0 else map_option Suc (findIndex P xs))"

text \<open>
  The closure \<open>animate\<close> of \<open>openGateAnimation\<close>: it reads \<open>this.exitGate\<close> afresh each
  time it runs, lifts that gate by 0.1 while it is below \<open>targetY\<close>, and asks for another
  animation frame.
\<close>

definition animate :: "real \<Rightarrow> game \<Rightarrow> game option" where
  "animate targetY s =
     (case exitGate s of
        None \<Rightarrow> None
      | Some g \<Rightarrow>
          if vy g < targetY
          then Some (s\<lparr>exitGate := Some (g\<lparr>vy := vy g + 0.1\<rparr>),
                       pending := pending s @ [GateAnimate targetY]\<rparr>)
          else Some s)"

definition openGateAnimation :: "game \<Rightarrow> game option" where
  "openGateAnimation s =
     (case exitGate s of
        None \<Rightarrow> Some s
      | Some g \<Rightarrow>
          do { s1 \<leftarrow> animate (vy g + 5) s;
               Some (s1\<lparr>pending := pending s1 @ [NextLevelTimer]\<rparr>) })"

definition tryOpenGate :: "game \<Rightarrow> game option" where
  "tryOpenGate s =
     (if currentLevel s = 1 then
        (if list_ex isKey (inventory s) then
           do { s1 \<leftarrow> openGateAnimation (s\<lparr>gateOpen := True\<rparr>);
                Some (case findIndex isKey (inventory s1) of
                        None \<Rightarrow> s1
                      | Some k \<Rightarrow> s1\<lparr>inventory := (inventory s1)[k := None]\<rparr>) }
         else Some s)
      else if currentLevel s = 2 then
        (if puzzleSolved s then openGateAnimation (s\<lparr>gateOpen := True\<rparr>) else Some s)
      else Some s)"

definition openPuzzle :: "string \<Rightarrow> game \<Rightarrow> game" where
  "openPuzzle ty s = (if puzzleSolved s then s else s\<lparr>state := PUZZLE\<rparr>)"

definition closePuzzle :: "game \<Rightarrow> game" where
  "closePuzzle s = s\<lparr>state := PLAYING\<rparr>"

text \<open>
  The click that completes the rune pattern (the success branch of the button handler in
  \<open>openPuzzle\<close>); the bookkeeping of the selected buttons is user interface.
\<close>

definition puzzleSolvedClick :: "game \<Rightarrow> game" where
  "puzzleSolvedClick s = s\<lparr>puzzleSolved := True, pending := pending s @ [ClosePuzzleTimer]\<rparr>"

definition runAction :: "action \<Rightarrow> game \<Rightarrow> game option" where
  "runAction a s =
     (case a of TryOpenGateAction \<Rightarrow> tryOpenGate s | OpenPuzzleAction ty \<Rightarrow> Some (openPuzzle ty s))"

fun interactLoop :: "Vector3 \<Rightarrow> interactable list \<Rightarrow> game \<Rightarrow> game option" where
  "interactLoop playerPos [] s = Some s"
| "interactLoop playerPos (x # xs) s =
     (if distanceTo playerPos (iposition x) < radius x then runAction (iaction x) s
      else interactLoop playerPos xs s)"

definition tryInteract :: "game \<Rightarrow> game option" where
  "tryInteract s =
     (case player s of None \<Rightarrow> None | Some playerPos \<Rightarrow> interactLoop playerPos (interactables s) s)"

definition runCallback :: "callback \<Rightarrow> game \<Rightarrow> game option" where
  "runCallback cb s =
     (case cb of
        NextLevelTimer \<Rightarrow> Some (nextLevel s)
      | GateAnimate targetY \<Rightarrow> animate targetY s
      | ClosePuzzleTimer \<Rightarrow> Some (closePuzzle s))"

text \<open>The browser runs the pending callback number \<open>k\<close>, once.\<close>

definition fire :: "nat \<Rightarrow> game \<Rightarrow> game option" where
  "fire k s =
     (if k < length (pending s)
      then runCallback (pending s ! k) (s\<lparr>pending := splice1 k (pending s)\<rparr>)
      else Some s)"

subsection \<open>The player and the platforms\<close>

text \<open>
  \<open>checkPlatformCollision\<close> returns whether the platform caught the player. It only
  writes when it returns true.
\<close>

definition land :: "real \<Rightarrow> Vector3 \<Rightarrow> game \<Rightarrow> game" where
  "land y p s =
     s\<lparr>player := Some (p\<lparr>vy := y\<rparr>), playerVelocity := (playerVelocity s)\<lparr>vy := 0\<rparr>,
       playerOnGround := True\<rparr>"

definition checkPlatformCollision :: "platform \<Rightarrow> game \<Rightarrow> (bool \<times> game) option" where
  "checkPlatformCollision pl s =
     (if isGround pl then Some (False, s)
      else if isArena pl then
        (case player s of
           None \<Rightarrow> None
         | Some p \<Rightarrow>
             (let dist = sqrt (vx p ^ 2 + vz p ^ 2)
              in if dist < 25 \<and> vy p < 2 \<and> vy p > 0 then
                   (if vy (playerVelocity s) < 0 then Some (True, land 2 p s) else Some (False, s))
                 else Some (False, s)))
      else
        (case pbounds pl of
           None \<Rightarrow> Some (False, s)
         | Some b \<Rightarrow>
             (case player s of
                None \<Rightarrow> None
              | Some playerPos \<Rightarrow>
                  (let pPos = pposition pl;
                       halfWidth = width b / 2;
                       halfDepth = depth b / 2;
                       platformTop = vy pPos + height b / 2
                   in if vx playerPos > vx pPos - halfWidth \<and> vx playerPos < vx pPos + halfWidth \<and>
                         vz playerPos > vz pPos - halfDepth \<and> vz playerPos < vz pPos + halfDepth
                      then
                        (if vy playerPos < platformTop + 1 \<and> vy playerPos > platformTop - 0.5 then
                           (if vy (playerVelocity s) < 0
                            then Some (True, land (platformTop + 1) playerPos s)
                            else Some (False, s))
                         else Some (False, s))
                      else Some (False, s)))))"

text \<open>The loop \<open>for (const platform of this.platforms)\<close> with its \<open>break\<close>.\<close>

fun platformLoop :: "platform list \<Rightarrow> game \<Rightarrow> game option" where
  "platformLoop [] s = Some s"
| "platformLoop (pl # pls) s =
     (case checkPlatformCollision pl s of
        None \<Rightarrow> None
      | Some (hit, s1) \<Rightarrow> if hit then Some s1 else platformLoop pls s1)"

definition groundLevel :: "game \<Rightarrow> game" where
  "groundLevel s =
     (case player s of
        None \<Rightarrow> s
      | Some p \<Rightarrow> if vy p < 1 then land 1 p s else s)"

text \<open>
  The first half of \<open>updatePlayer\<close>: movement input turned by the camera yaw, running,
  jumping, gravity and the integration of the position; \<open>playerOnGround\<close> is cleared
  before the collision pass.
\<close>

definition movePlayer :: "real \<Rightarrow> Vector3 \<Rightarrow> game \<Rightarrow> game" where
  "movePlayer delta p0 s =
     (let k = keys s;
          mz = (if k ''KeyW'' then - 1 else 0) + (if k ''KeyS'' then 1 else 0);
          mx = (if k ''KeyA'' then - 1 else 0) + (if k ''KeyD'' then 1 else 0);
          moveDir = applyAxisAngleY (vec mx 0 mz) (cameraRotationY s);
          sp = (if k ''ShiftLeft'' \<or> k ''ShiftRight''
                then playerSpeed s * runMultiplier s else playerSpeed s);
          v0 = playerVelocity s;
          v1 = (if vlength moveDir > 0
                then v0\<lparr>vx := vx (normalizeV moveDir) * sp, vz := vz (normalizeV moveDir) * sp\<rparr>
                else v0\<lparr>vx := vx v0 * 0.8, vz := vz v0 * 0.8\<rparr>);
          v2 = (if k ''Space'' \<and> playerOnGround s then v1\<lparr>vy := jumpForce s\<rparr> else v1);
          v3 = v2\<lparr>vy := vy v2 - gravity s * delta\<rparr>;
          p1 = vec (vx p0 + vx v3 * delta) (vy p0 + vy v3 * delta) (vz p0 + vz v3 * delta)
      in s\<lparr>playerVelocity := v3, player := Some p1, playerOnGround := False\<rparr>)"

text \<open>
  \<open>updatePlayer\<close>: nothing without a player; else the movement, the platform loop (the
  collision pass) and the clamp to the ground level \<open>y = 1\<close>.
\<close>

definition updatePlayer :: "real \<Rightarrow> game \<Rightarrow> game option" where
  "updatePlayer delta s =
     (case player s of
        None \<Rightarrow> Some s
      | Some p0 \<Rightarrow>
          (let s1 = movePlayer delta p0 s
           in do { s2 \<leftarrow> platformLoop (platforms s1) s1; Some (groundLevel s2) }))"

subsection \<open>Enemies\<close>

definition enemyShoot :: "enemy \<Rightarrow> Vector3 \<Rightarrow> real \<Rightarrow> game \<Rightarrow> game" where
  "enemyShoot e direction now s =
     s\<lparr>projectiles := projectiles s @
        [\<lparr>prposition = (eposition e)\<lparr>vy := vy (eposition e) + 1.5\<rparr>,
          velocity = multiplyScalar direction 20,
          isPlayerProjectile = False, isEnemyProjectile = True,
          damage = edamage e, lifetime = 3, spawnTime = now\<rparr>]\<rparr>"

text \<open>
  The body of the loop of \<open>updateEnemies\<close> for index \<open>i\<close>. The enemy object is mutated
  in place: the model writes it back at its index. \<open>!lastAttack\<close> holds for an undefined
  and for a zero time stamp.
\<close>

definition enemyStep :: "real \<Rightarrow> real \<Rightarrow> Vector3 \<Rightarrow> nat \<Rightarrow> game \<Rightarrow> game option" where
  "enemyStep delta now playerPos i s =
     (if i < length (enemies s) then
        (let e = enemies s ! i;
             enemyPos = eposition e;
             dist = distanceTo playerPos enemyPos
         in if ehealth e \<le> 0 then Some (s\<lparr>enemies := splice1 i (enemies s)\<rparr>)
            else
              (let s3 =
                 (if dist < aggroRange e then
                    (let direction = normalizeV (subVectors playerPos enemyPos);
                         e1 = (if dist > attackRange e
                               then e\<lparr>eposition := enemyPos
                                      \<lparr>vx := vx enemyPos + vx direction * speed e * delta,
                                       vz := vz enemyPos + vz direction * speed e * delta\<rparr>\<rparr>
                               else e);
                         s1 = s\<lparr>enemies := (enemies s)[i := e1]\<rparr>
                     in if dist < attackRange e then
                          (if etype e = ''spirit'' \<and> canShoot e then
                             (if now - lastShot e > 2
                              then (let s2 = enemyShoot e1 direction now s1
                                    in s2\<lparr>enemies := (enemies s2)[i := e1\<lparr>lastShot := now\<rparr>]\<rparr>)
                              else s1)
                           else if etype e = ''wolf'' then
                             (if (case lastAttack e of None \<Rightarrow> True
                                  | Some t \<Rightarrow> t = 0 \<or> now - t > 1)
                              then (let s2 = takeDamage (edamage e) s1
                                    in s2\<lparr>enemies := (enemies s2)[i := e1\<lparr>lastAttack := Some now\<rparr>]\<rparr>)
                              else s1)
                           else s1)
                        else s1)
                  else s);
                   e3 = enemies s3 ! i
               in Some (if etype e3 = ''spirit''
                        then s3\<lparr>enemies := (enemies s3)
                                  [i := e3\<lparr>eposition := (eposition e3)
                                           \<lparr>vy := 2 + sin (now * 2) * 0.3\<rparr>\<rparr>]\<rparr>
                        else s3)))
      else None)"

text \<open>\<open>for (let i = length - 1; i >= 0; i--)\<close>: the argument counts the indices left.\<close>

fun enemiesLoop :: "real \<Rightarrow> real \<Rightarrow> Vector3 \<Rightarrow> nat \<Rightarrow> game \<Rightarrow> game option" where
  "enemiesLoop delta now playerPos 0 s = Some s"
| "enemiesLoop delta now playerPos (Suc i) s =
     do { s1 \<leftarrow> enemyStep delta now playerPos i s; enemiesLoop delta now playerPos i s1 }"

definition updateEnemies :: "real \<Rightarrow> real \<Rightarrow> game \<Rightarrow> game option" where
  "updateEnemies delta now s =
     (case player s of
        None \<Rightarrow> None
      | Some playerPos \<Rightarrow> enemiesLoop delta now playerPos (length (enemies s)) s)"

subsection \<open>The boss\<close>

definition bossGroundSlam :: "game \<Rightarrow> game option" where
  "bossGroundSlam s =
     (case boss s of
        None \<Rightarrow> None
      | Some b \<Rightarrow>
          (case player s of
             None \<Rightarrow> None
           | Some p \<Rightarrow> Some (if distanceTo p (bposition b) < 8 then takeDamage 20 s else s)))"

definition iceShard :: "bossobj \<Rightarrow> Vector3 \<Rightarrow> real \<Rightarrow> real \<Rightarrow> projectile" where
  "iceShard b direction i now =
     \<lparr>prposition = (bposition b)\<lparr>vy := vy (bposition b) + 5\<rparr>,
      velocity = multiplyScalar (applyAxisAngleY direction (i * 0.2)) 25,
      isPlayerProjectile = False, isEnemyProjectile = True,
      damage = 15, lifetime = 3, spawnTime = now\<rparr>"

definition bossIceAttack :: "Vector3 \<Rightarrow> real \<Rightarrow> game \<Rightarrow> game option" where
  "bossIceAttack direction now s =
     (case boss s of
        None \<Rightarrow> None
      | Some b \<Rightarrow>
          Some (s\<lparr>projectiles := projectiles s @
                  [iceShard b direction (- 1) now, iceShard b direction 0 now,
                   iceShard b direction 1 now]\<rparr>))"

text \<open>
  \<open>updateBoss\<close>. \<open>healthPercent\<close> is the quotient of two numbers; the cooldown is chosen
  from it on every call.
\<close>

definition updateBoss :: "real \<Rightarrow> real \<Rightarrow> game \<Rightarrow> game option" where
  "updateBoss delta now s =
     (case boss s of
        None \<Rightarrow> Some s
      | Some b \<Rightarrow>
          if currentLevel s \<noteq> 3 then Some s
          else
            (case player s of
               None \<Rightarrow> None
             | Some playerPos \<Rightarrow>
                 if bossHealth s \<le> 0 then Some (victory (s\<lparr>boss := None\<rparr>))
                 else
                   (let bossPos = bposition b;
                        direction = normalizeV (subVectors playerPos bossPos);
                        dist = distanceTo playerPos bossPos;
                        healthPercent = real_of_int (bossHealth s) / real_of_int (bossMaxHealth s);
                        bossPos1 = (if dist > 8
                                    then bossPos\<lparr>vx := vx bossPos + vx direction * 3 * delta,
                                                 vz := vz bossPos + vz direction * 3 * delta\<rparr>
                                    else bossPos);
                        lastA = (case blastAttack b of None \<Rightarrow> 0 | Some t \<Rightarrow> t);
                        s1 = s\<lparr>boss := Some (b\<lparr>bposition := bossPos1, blastAttack := Some lastA\<rparr>)\<rparr>;
                        attackCooldown = (if healthPercent > 0.5 then 2 else 1)
                    in if now - lastA > attackCooldown then
                         do { s2 \<leftarrow> (if dist < 5 then bossGroundSlam s1
                                     else bossIceAttack direction now s1);
                              (case boss s2 of
                                 None \<Rightarrow> None
                               | Some b2 \<Rightarrow> Some (s2\<lparr>boss := Some (b2\<lparr>blastAttack := Some now\<rparr>)\<rparr>)) }
                       else Some s1)))"

subsection \<open>Projectiles\<close>

text \<open>
  The loop over \<open>this.enemies\<close> inside \<open>updateProjectiles\<close>: the first enemy closer than
  1.5 loses health; the flag says whether there was one.
\<close>

fun hitEnemy :: "Vector3 \<Rightarrow> int \<Rightarrow> enemy list \<Rightarrow> enemy list \<times> bool" where
  "hitEnemy pos dmg [] = ([], False)"
| "hitEnemy pos dmg (e # es) =
     (if distanceTo pos (eposition e) < 1.5 then (e\<lparr>ehealth := ehealth e - dmg\<rparr> # es, True)
      else (let (es1, h) = hitEnemy pos dmg es in (e # es1, h)))"

text \<open>
  The body of the loop of \<open>updateProjectiles\<close> for index \<open>i\<close>. \<open>proj\<close> is the object read
  at the top of the body; every \<open>splice(i, 1)\<close> removes whatever stands at index \<open>i\<close> of
  the list at that moment.
\<close>

definition projectileStep :: "real \<Rightarrow> real \<Rightarrow> nat \<Rightarrow> game \<Rightarrow> game option" where
  "projectileStep delta now i s =
     (if i < length (projectiles s) then
        (let proj0 = projectiles s ! i;
             proj = proj0\<lparr>prposition :=
                      addv (prposition proj0) (multiplyScalar (velocity proj0) delta)\<rparr>;
             s1 = s\<lparr>projectiles := (projectiles s)[i := proj]\<rparr>
         in if now - spawnTime proj > lifetime proj
            then Some (s1\<lparr>projectiles := splice1 i (projectiles s1)\<rparr>)
            else
              (let s2 =
                 (if isPlayerProjectile proj then
                    (let (es, h) = hitEnemy (prposition proj) (damage proj) (enemies s1);
                         sE = (if h then s1\<lparr>enemies := es,
                                            projectiles := splice1 i (projectiles s1)\<rparr>
                               else s1)
                     in case boss sE of
                          None \<Rightarrow> sE
                        | Some b \<Rightarrow>
                            if distanceTo (prposition proj) (bposition b) < 3
                            then sE\<lparr>bossHealth := bossHealth sE - damage proj,
                                    projectiles := splice1 i (projectiles sE)\<rparr>
                            else sE)
                  else s1)
               in if isEnemyProjectile proj then
                    (case player s2 of
                       None \<Rightarrow> None
                     | Some p \<Rightarrow>
                         if distanceTo (prposition proj) p < 1
                         then (let s3 = takeDamage (damage proj) s2
                               in Some (s3\<lparr>projectiles := splice1 i (projectiles s3)\<rparr>))
                         else Some s2)
                  else Some s2))
      else None)"

fun projectilesLoop :: "real \<Rightarrow> real \<Rightarrow> nat \<Rightarrow> game \<Rightarrow> game option" where
  "projectilesLoop delta now 0 s = Some s"
| "projectilesLoop delta now (Suc i) s =
     do { s1 \<leftarrow> projectileStep delta now i s; projectilesLoop delta now i s1 }"

definition updateProjectiles :: "real \<Rightarrow> real \<Rightarrow> game \<Rightarrow> game option" where
  "updateProjectiles delta now s = projectilesLoop delta now (length (projectiles s)) s"

subsection \<open>Collectibles and level completion\<close>

definition collectibleStep :: "Vector3 \<Rightarrow> nat \<Rightarrow> game \<Rightarrow> game option" where
  "collectibleStep playerPos i s =
     (if i < length (collectibles s) then
        (let c0 = collectibles s ! i;
             c = c0\<lparr>cposition := (cposition c0)
                    \<lparr>vy := vy (cposition c0) + sin (animationTime s * 3 + real i) * 0.002\<rparr>\<rparr>;
             s1 = s\<lparr>collectibles := (collectibles s)[i := c]\<rparr>
         in if distanceTo playerPos (cposition c) < 1.5 then collectItem i s1 else Some s1)
      else None)"

fun collectiblesLoop :: "Vector3 \<Rightarrow> nat \<Rightarrow> game \<Rightarrow> game option" where
  "collectiblesLoop playerPos 0 s = Some s"
| "collectiblesLoop playerPos (Suc i) s =
     do { s1 \<leftarrow> collectibleStep playerPos i s; collectiblesLoop playerPos i s1 }"

definition updateCollectibles :: "game \<Rightarrow> game option" where
  "updateCollectibles s =
     (case player s of
        None \<Rightarrow> None
      | Some playerPos \<Rightarrow> collectiblesLoop playerPos (length (collectibles s)) s)"

definition checkLevelCompletion :: "game \<Rightarrow> game option" where
  "checkLevelCompletion s =
     (case exitGate s of
        None \<Rightarrow> Some s
      | Some gatePos \<Rightarrow>
          if \<not> gateOpen s then Some s
          else
            (case player s of
               None \<Rightarrow> None
             | Some playerPos \<Rightarrow>
                 if distanceTo playerPos gatePos < 3 then Some (nextLevel s) else Some s))"

subsection \<open>The frame and the input handlers\<close>

text \<open>
  The update calls of \<open>gameLoop\<close> that come before \<open>checkLevelCompletion\<close>, in the order
  of the source (\<open>updateCamera\<close>, \<open>updateSnowfall\<close> and \<open>updateInteractionPrompt\<close> only
  draw).
\<close>

definition updates :: "real \<Rightarrow> real \<Rightarrow> game \<Rightarrow> game option" where
  "updates delta now s =
     do { s1 \<leftarrow> updatePlayer delta s;
          s2 \<leftarrow> updateEnemies delta now s1;
          s3 \<leftarrow> updateBoss delta now s2;
          s4 \<leftarrow> updateProjectiles delta now s3;
          updateCollectibles s4 }"

text \<open>
  One call of \<open>gameLoop\<close>: \<open>dt\<close> is the reading of \<open>clock.getDelta()\<close>, \<open>now\<close> the
  elapsed time the update methods read. The state is tested once, before the updates.
\<close>

definition gameLoop :: "real \<Rightarrow> real \<Rightarrow> game \<Rightarrow> game option" where
  "gameLoop dt now s =
     (if state s = GAME_OVER \<or> state s = VICTORY then Some s
      else
        (let delta = min dt 0.1;
             s0 = s\<lparr>animationTime := animationTime s + delta\<rparr>
         in if state s0 = PLAYING then
              do { s5 \<leftarrow> updates delta now s0; checkLevelCompletion s5 }
            else Some s0))"

definition startGame :: "real \<Rightarrow> real \<Rightarrow> game \<Rightarrow> game option" where
  "startGame dt now s =
     gameLoop dt now (loadLevel 1 (resetPlayer (s\<lparr>state := PLAYING, currentLevel := 1\<rparr>)))"

definition restartGame :: "game \<Rightarrow> game" where
  "restartGame s =
     loadLevel 1
       (resetPlayer
         (s\<lparr>health := maxHealth s, ammo := maxAmmo s, inventory := [None, None, None],
            currentLevel := 1, state := PLAYING\<rparr>))"

definition onKeyDown :: "string \<Rightarrow> game \<Rightarrow> game option" where
  "onKeyDown code s =
     do { s1 \<leftarrow> (let s0 = s\<lparr>keys := (keys s)(code := True)\<rparr>
                 in if code = ''KeyE'' \<and> state s0 = PLAYING then tryInteract s0 else Some s0);
          Some (if code = ''Escape'' \<and> state s1 = PUZZLE then closePuzzle s1 else s1) }"

definition onKeyUp :: "string \<Rightarrow> game \<Rightarrow> game" where
  "onKeyUp code s = s\<lparr>keys := (keys s)(code := False)\<rparr>"

definition onMouseDown :: "int \<Rightarrow> real \<Rightarrow> game \<Rightarrow> game option" where
  "onMouseDown button now s =
     (if button = 0 then
        (let s0 = s\<lparr>mouseDown := True\<rparr>
         in if state s0 = PLAYING \<and> pointerLocked s0 then shoot now s0 else Some s0)
      else Some s)"

definition onMouseUp :: "int \<Rightarrow> game \<Rightarrow> game" where
  "onMouseUp button s = (if button = 0 then s\<lparr>mouseDown := False\<rparr> else s)"

definition onMouseMove :: "real \<Rightarrow> real \<Rightarrow> game \<Rightarrow> game" where
  "onMouseMove movementX movementY s =
     (if pointerLocked s \<and> state s = PLAYING then
        (let ry = cameraRotationY s - movementX * mouseSensitivity s;
             rx = cameraRotationX s - movementY * mouseSensitivity s
         in s\<lparr>cameraRotationY := ry,
              cameraRotationX := max (- pi / 3) (min (pi / 3) rx)\<rparr>)
      else s)"

definition onPointerLockChange :: "bool \<Rightarrow> game \<Rightarrow> game" where
  "onPointerLockChange locked s = s\<lparr>pointerLocked := locked\<rparr>"

text \<open>
  Everything the browser can deliver to the game object: user input, an animation frame
  of the game loop, and a pending callback coming due.
\<close>

datatype event =
    ClickStart real real
  | ClickRestart
  | ClickPuzzleClose
  | PuzzleSolved
  | KeyDown string
  | KeyUp string
  | MouseDown int real
  | MouseUp int
  | MouseMove real real
  | PointerLockChange bool
  | Frame real real
  | Fire nat

definition step :: "event \<Rightarrow> game \<Rightarrow> game option" where
  "step ev s =
     (case ev of
        ClickStart dt now \<Rightarrow> startGame dt now s
      | ClickRestart \<Rightarrow> Some (restartGame s)
      | ClickPuzzleClose \<Rightarrow> Some (closePuzzle s)
      | PuzzleSolved \<Rightarrow> Some (puzzleSolvedClick s)
      | KeyDown code \<Rightarrow> onKeyDown code s
      | KeyUp code \<Rightarrow> Some (onKeyUp code s)
      | MouseDown button now \<Rightarrow> onMouseDown button now s
      | MouseUp button \<Rightarrow> Some (onMouseUp button s)
      | MouseMove mx my \<Rightarrow> Some (onMouseMove mx my s)
      | PointerLockChange locked \<Rightarrow> Some (onPointerLockChange locked s)
      | Frame dt now \<Rightarrow> gameLoop dt now s
      | Fire k \<Rightarrow> fire k s)"

text \<open>A run of the game: the events in order, from a state; it stops at a thrown error.\<close>

fun run :: "event list \<Rightarrow> game \<Rightarrow> game option" where
  "run [] s = Some s"
| "run (ev # evs) s = do { s1 \<leftarrow> step ev s; run evs s1 }"

section \<open>Invariant and example states\<close>

text \<open>
  The invariant carried through every event: the player's stats stay under their caps
  and every damage figure in the registries is non-negative (so that \<open>takeDamage\<close> is
  never called with a negative amount).
\<close>

definition statsOk :: "game \<Rightarrow> bool" where
  "statsOk s =
     (health s \<le> maxHealth s \<and> 0 \<le> ammo s \<and> ammo s \<le> maxAmmo s \<and> 0 \<le> maxAmmo s \<and>
      list_all (\<lambda>e. 0 \<le> edamage e) (enemies s) \<and>
      list_all (\<lambda>p. 0 \<le> damage p) (projectiles s))"

text \<open>What the update methods of a frame leave alone.\<close>

definition keeps :: "game \<Rightarrow> game \<Rightarrow> bool" where
  "keeps s s' =
     (currentLevel s' = currentLevel s \<and> gateOpen s' = gateOpen s \<and>
      (statsOk s \<longrightarrow> statsOk s'))"

text \<open>
  The invariant behind the hit resolution: a level has enemies or a boss, never both, and
  no projectile carries both owner flags.
\<close>

definition oneOwner :: "projectile \<Rightarrow> bool" where
  "oneOwner p = (\<not> (isPlayerProjectile p \<and> isEnemyProjectile p))"

definition hitInv :: "game \<Rightarrow> bool" where
  "hitInv s = ((boss s = None \<or> enemies s = []) \<and> list_all oneOwner (projectiles s))"

text \<open>What every event other than a level change leaves alone.\<close>

definition kept :: "game \<Rightarrow> game \<Rightarrow> bool" where
  "kept s s' = (currentLevel s' = currentLevel s \<and> (statsOk s \<longrightarrow> statsOk s'))"

text \<open>
  Level 1 with the player falling past the first ice platform (centre \<open>(5, 1.5, -10)\<close>,
  4 by 0.5 by 4, top at 1.75): \<open>falling y\<close> has the player at height \<open>y\<close> over its centre,
  moving down.
\<close>

definition ledge :: platform where
  "ledge = \<lparr>pposition = vec 5 1.5 (- 10), isGround = False, isArena = False,
            pbounds = Some \<lparr>width = 4, height = 0.5, depth = 4\<rparr>\<rparr>"

definition falling :: "real \<Rightarrow> game" where
  "falling y = (loadLevel 1 constructor)
      \<lparr>state := PLAYING, player := Some (vec 5 y (- 10)), playerVelocity := vec 0 (- 1) 0\<rparr>"

text \<open>
  Level 1 with the key in the inventory and the player standing at \<open>(35, 1, z)\<close> in front
  of the gate; \<open>gateOpened z\<close> is that state after the gate was opened, \<open>temple z\<close> the
  level 2 loaded from there.
\<close>

definition crystalKey :: item where
  "crystalKey = \<lparr>itype = ''key'', icon = ''K''\<rparr>"

definition atGate :: "real \<Rightarrow> game" where
  "atGate z = (loadLevel 1 constructor)
      \<lparr>state := PLAYING, inventory := [Some crystalKey, None, None],
       player := Some (vec 35 1 z)\<rparr>"

definition gateOpened :: "real \<Rightarrow> game" where
  "gateOpened z = (atGate z)
      \<lparr>gateOpen := True, exitGate := Some (vec 35 2.6 (- 15)),
       pending := [GateAnimate 7.5, NextLevelTimer], inventory := [None, None, None]\<rparr>"

definition temple :: "real \<Rightarrow> game" where
  "temple z = loadLevel 2 ((gateOpened z)\<lparr>currentLevel := 2\<rparr>)"

text \<open>Level 3 with the boss at half of its health.\<close>

definition lair :: game where
  "lair = (loadLevel 3 (constructor\<lparr>state := PLAYING, currentLevel := 3\<rparr>))\<lparr>bossHealth := 50\<rparr>"

text \<open>The state after a restart, pointer lock and one shot at time 1.\<close>

definition firstShot :: game where
  "firstShot = (restartGame constructor)
     \<lparr>pointerLocked := True, mouseDown := True, lastShootTime := 1, ammo := 29,
      projectiles := [\<lparr>prposition = vec 0 2.5 0, velocity = vec 0 0 (- 50),
                       isPlayerProjectile = True, isEnemyProjectile = False,
                       damage = 10, lifetime = 2, spawnTime = 1\<rparr>]\<rparr>"

text \<open>
  \<open>firstShot\<close> with a second player projectile about to pass the last of the three
  wolves of level 1, which stands at \<open>(10, 1, 5)\<close>.
\<close>

definition ambush :: game where
  "ambush = firstShot
     \<lparr>projectiles := projectiles firstShot @
        [\<lparr>prposition = vec 10 1.5 5.5, velocity = vec 0 0 (- 50),
          isPlayerProjectile = True, isEnemyProjectile = False,
          damage = 10, lifetime = 2, spawnTime = 1\<rparr>]\<rparr>"

section \<open>Auxiliary facts\<close>

subsection \<open>Vectors, lists and level data\<close>

lemma distanceTo_less_iff:
  "0 \<le> r \<Longrightarrow> (distanceTo a b < r) = (distanceToSquared a b < r * r)"
proof -
  assume r: "0 \<le> r"
  have "(sqrt (distanceToSquared a b) < sqrt (r * r)) = (distanceToSquared a b < r * r)"
    by (rule real_sqrt_less_iff)
  moreover have "sqrt (r * r) = r" using r by simp
  ultimately show ?thesis by (simp add: distanceTo_def)
qed

lemma distanceTo_times_less_iff:
  "0 < k \<Longrightarrow> 0 \<le> r \<Longrightarrow>
     (distanceTo a b * k < r) = (distanceToSquared a b * (k * k) < r * r)"
proof -
  assume k: "0 < k" and r: "0 \<le> r"
  have "(distanceTo a b * k < r) = (distanceTo a b < r / k)"
    using k by (simp add: pos_less_divide_eq)
  also have "\<dots> = (distanceToSquared a b < (r / k) * (r / k))"
    using k r by (intro distanceTo_less_iff) simp
  also have "\<dots> = (distanceToSquared a b * (k * k) < r * r)"
    using k by (simp add: field_simps)
  finally show ?thesis .
qed

lemma list_all_update: "list_all P xs \<Longrightarrow> P y \<Longrightarrow> list_all P (xs[i := y])"
  by (induction xs arbitrary: i) (auto split: nat.splits)

lemma list_all_splice1: "list_all P xs \<Longrightarrow> list_all P (splice1 i xs)"
  unfolding splice1_def list_all_iff by (auto dest: in_set_takeD in_set_dropD)

lemma edamage_nth:
  "list_all (\<lambda>e. 0 \<le> edamage e) es \<Longrightarrow> i < length es \<Longrightarrow> 0 \<le> edamage (es ! i)"
  by (simp add: list_all_length)

lemma damage_nth:
  "list_all (\<lambda>p. 0 \<le> damage p) ps \<Longrightarrow> i < length ps \<Longrightarrow> 0 \<le> damage (ps ! i)"
  by (simp add: list_all_length)

lemmas create_defs = createSnowGround_def createPlayer_def createIcePlatform_def
  createCollectible_def createSnowWolf_def createIceSpirit_def createExitGate_def
  createPuzzleAltar_def createKeyArea_def createLevel1_def createTemple_def createLevel2_def
  coverPlatform_def createBossArena_def createBoss_def createLevel3_def

lemma loadLevel_frame:
  "currentLevel (loadLevel n s) = currentLevel s"
  "maxLevels (loadLevel n s) = maxLevels s"
  "state (loadLevel n s) = state s"
  "health (loadLevel n s) = health s"
  "maxHealth (loadLevel n s) = maxHealth s"
  "ammo (loadLevel n s) = ammo s"
  "maxAmmo (loadLevel n s) = maxAmmo s"
  "inventory (loadLevel n s) = inventory s"
  "pending (loadLevel n s) = pending s"
  "gateOpen (loadLevel n s) = False"
  "puzzleSolved (loadLevel n s) = False"
  "projectiles (loadLevel n s) = []"
  "playerVelocity (loadLevel n s) = playerVelocity s"
  by (simp_all add: loadLevel_def clearLevel_def create_defs Let_def)

lemma loadLevel_1:
  "exitGate (loadLevel 1 s) = Some (vec 35 2.5 (- 15))"
  "interactables (loadLevel 1 s) =
     [\<lparr>iposition = vec 35 2 (- 15), radius = 3, itag = ''gate'', iaction = TryOpenGateAction\<rparr>]"
  "player (loadLevel 1 s) = Some (vec 0 1 0)"
  "boss (loadLevel 1 s) = None"
  by (simp_all add: loadLevel_def clearLevel_def create_defs Let_def)

lemma loadLevel_2:
  "exitGate (loadLevel 2 s) = Some (vec 0 6.5 (- 40))"
  "player (loadLevel 2 s) = Some (vec 0 1 0)"
  "boss (loadLevel 2 s) = None"
  by (simp_all add: loadLevel_def clearLevel_def create_defs Let_def)

lemma loadLevel_3:
  "exitGate (loadLevel 3 s) = None"
  "player (loadLevel 3 s) = Some (vec 0 1 30)"
  "boss (loadLevel 3 s) = Some \<lparr>bposition = vec 0 1 (- 10), blastAttack = None\<rparr>"
  "enemies (loadLevel 3 s) = []"
  "bossHealth (loadLevel 3 s) = bossMaxHealth s"
  "bossMaxHealth (loadLevel 3 s) = bossMaxHealth s"
  by (simp_all add: loadLevel_def clearLevel_def create_defs Let_def)

subsection \<open>What the updates of a frame preserve\<close>

lemma keeps_refl: "keeps s s" by (simp add: keeps_def)
lemma keeps_trans: "keeps s t \<Longrightarrow> keeps t u \<Longrightarrow> keeps s u" by (simp add: keeps_def)

lemma checkPlatformCollision_keeps:
  "checkPlatformCollision pl s = Some (h, s') \<Longrightarrow> keeps s s'"
  by (auto simp: checkPlatformCollision_def land_def keeps_def statsOk_def Let_def
      split: option.splits if_splits)

lemma platformLoop_keeps: "platformLoop pls s = Some s' \<Longrightarrow> keeps s s'"
proof (induction pls arbitrary: s)
  case Nil then show ?case by (simp add: keeps_refl)
next
  case (Cons pl pls)
  from Cons.prems obtain h s1 where c: "checkPlatformCollision pl s = Some (h, s1)"
    and r: "if h then s' = s1 else platformLoop pls s1 = Some s'"
    by (auto split: option.splits if_splits)
  have k: "keeps s s1" by (rule checkPlatformCollision_keeps[OF c])
  show ?case
  proof (cases h)
    case True with r k show ?thesis by simp
  next
    case False
    with r have "platformLoop pls s1 = Some s'" by simp
    from Cons.IH[OF this] k show ?thesis by (blast intro: keeps_trans)
  qed
qed

lemma movePlayer_keeps: "keeps s (movePlayer delta p0 s)"
  by (simp add: movePlayer_def keeps_def statsOk_def Let_def)

lemma groundLevel_keeps: "keeps s (groundLevel s)"
  by (simp add: groundLevel_def land_def keeps_def statsOk_def split: option.splits)

lemma updatePlayer_keeps: "updatePlayer delta s = Some s' \<Longrightarrow> keeps s s'"
proof -
  assume a: "updatePlayer delta s = Some s'"
  show ?thesis
  proof (cases "player s")
    case None with a show ?thesis by (simp add: updatePlayer_def keeps_refl)
  next
    case (Some p0)
    with a obtain s2 where s2: "platformLoop (platforms (movePlayer delta p0 s)) (movePlayer delta p0 s) = Some s2"
      and s': "s' = groundLevel s2"
      by (auto simp: updatePlayer_def Let_def split: Option.bind_splits)
    from movePlayer_keeps platformLoop_keeps[OF s2] groundLevel_keeps show ?thesis
      unfolding s' by (blast intro: keeps_trans)
  qed
qed

lemma takeDamage_keeps: "0 \<le> d \<Longrightarrow> keeps s (takeDamage d s)"
  by (simp add: takeDamage_def gameOver_def keeps_def statsOk_def Let_def)

lemma enemyStep_keeps_case:
  "(case enemyStep delta now p i s of None \<Rightarrow> True | Some s' \<Rightarrow> keeps s s')"
  by (auto simp: enemyStep_def enemyShoot_def takeDamage_def gameOver_def keeps_def statsOk_def
      Let_def list_all_update list_all_splice1 edamage_nth split: option.split
      dest: edamage_nth)

lemma enemyStep_keeps: "enemyStep delta now p i s = Some s' \<Longrightarrow> keeps s s'"
  using enemyStep_keeps_case[where delta=delta and now=now and p=p and i=i and s=s] by simp

lemma enemiesLoop_keeps: "enemiesLoop delta now p n s = Some s' \<Longrightarrow> keeps s s'"
proof (induction n arbitrary: s)
  case 0 then show ?case by (simp add: keeps_refl)
next
  case (Suc n)
  from Suc.prems obtain s1 where a: "enemyStep delta now p n s = Some s1"
    and b: "enemiesLoop delta now p n s1 = Some s'"
    by (auto split: Option.bind_splits)
  from enemyStep_keeps[OF a] Suc.IH[OF b] show ?case by (rule keeps_trans)
qed

lemma updateEnemies_keeps: "updateEnemies delta now s = Some s' \<Longrightarrow> keeps s s'"
  by (auto simp: updateEnemies_def split: option.splits dest: enemiesLoop_keeps)

lemma updateBoss_keeps_case:
  "(case updateBoss delta now s of None \<Rightarrow> True | Some s' \<Rightarrow> keeps s s')"
  by (auto simp: updateBoss_def bossGroundSlam_def bossIceAttack_def iceShard_def victory_def
      takeDamage_def gameOver_def keeps_def statsOk_def Let_def split: option.split)

lemma updateBoss_keeps: "updateBoss delta now s = Some s' \<Longrightarrow> keeps s s'"
  using updateBoss_keeps_case[where delta=delta and now=now and s=s] by simp

lemma hitEnemy_edamage:
  "hitEnemy pos d es = (es1, h) \<Longrightarrow> list_all (\<lambda>e. 0 \<le> edamage e) es \<Longrightarrow>
     list_all (\<lambda>e. 0 \<le> edamage e) es1"
  by (induction es arbitrary: es1 h) (auto split: if_splits prod.splits)

lemma projectileStep_keeps_case:
  "(case projectileStep delta now i s of None \<Rightarrow> True | Some s' \<Rightarrow> keeps s s')"
  by (auto simp: projectileStep_def takeDamage_def gameOver_def keeps_def statsOk_def
      Let_def list_all_update list_all_splice1 damage_nth split: option.split prod.split
      dest: damage_nth hitEnemy_edamage)

lemma projectileStep_keeps: "projectileStep delta now i s = Some s' \<Longrightarrow> keeps s s'"
  using projectileStep_keeps_case[where delta=delta and now=now and i=i and s=s] by simp

lemma projectilesLoop_keeps: "projectilesLoop delta now n s = Some s' \<Longrightarrow> keeps s s'"
proof (induction n arbitrary: s)
  case 0 then show ?case by (simp add: keeps_refl)
next
  case (Suc n)
  from Suc.prems obtain s1 where a: "projectileStep delta now n s = Some s1"
    and b: "projectilesLoop delta now n s1 = Some s'"
    by (auto split: Option.bind_splits)
  from projectileStep_keeps[OF a] Suc.IH[OF b] show ?case by (rule keeps_trans)
qed

lemma updateProjectiles_keeps: "updateProjectiles delta now s = Some s' \<Longrightarrow> keeps s s'"
  by (auto simp: updateProjectiles_def dest: projectilesLoop_keeps)

lemma collectItem_keeps: "collectItem i s = Some s' \<Longrightarrow> keeps s s'"
  by (auto simp: collectItem_def keeps_def statsOk_def Let_def split: if_splits)

lemma collectibleStep_keeps_case:
  "(case collectibleStep p i s of None \<Rightarrow> True | Some s' \<Rightarrow> keeps s s')"
  by (auto simp: collectibleStep_def collectItem_def keeps_def statsOk_def Let_def
      split: option.split)

lemma collectibleStep_keeps: "collectibleStep p i s = Some s' \<Longrightarrow> keeps s s'"
  using collectibleStep_keeps_case[where p=p and i=i and s=s] by simp

lemma collectiblesLoop_keeps: "collectiblesLoop p n s = Some s' \<Longrightarrow> keeps s s'"
proof (induction n arbitrary: s)
  case 0 then show ?case by (simp add: keeps_refl)
next
  case (Suc n)
  from Suc.prems obtain s1 where a: "collectibleStep p n s = Some s1"
    and b: "collectiblesLoop p n s1 = Some s'"
    by (auto split: Option.bind_splits)
  from collectibleStep_keeps[OF a] Suc.IH[OF b] show ?case by (rule keeps_trans)
qed

lemma updateCollectibles_keeps: "updateCollectibles s = Some s' \<Longrightarrow> keeps s s'"
  by (auto simp: updateCollectibles_def split: option.splits dest: collectiblesLoop_keeps)

lemma updates_keeps: "updates delta now s = Some s' \<Longrightarrow> keeps s s'"
proof -
  assume "updates delta now s = Some s'"
  then obtain s1 s2 s3 s4 where "updatePlayer delta s = Some s1"
    "updateEnemies delta now s1 = Some s2" "updateBoss delta now s2 = Some s3"
    "updateProjectiles delta now s3 = Some s4" "updateCollectibles s4 = Some s'"
    by (auto simp: updates_def split: Option.bind_splits)
  then show ?thesis
    by (blast intro: keeps_trans dest: updatePlayer_keeps updateEnemies_keeps updateBoss_keeps
        updateProjectiles_keeps updateCollectibles_keeps)
qed

subsection \<open>What the events preserve\<close>

lemma loadLevel_statsOk: "statsOk s \<Longrightarrow> statsOk (loadLevel n s)"
  by (simp add: statsOk_def loadLevel_def clearLevel_def create_defs Let_def)

lemma nextLevel_level: "currentLevel (nextLevel s) = currentLevel s + 1"
  by (simp add: nextLevel_def victory_def loadLevel_frame Let_def)

lemma nextLevel_statsOk: "statsOk s \<Longrightarrow> statsOk (nextLevel s)"
proof -
  assume a: "statsOk s"
  have b: "statsOk (s\<lparr>currentLevel := c\<rparr>)" for c using a by (simp add: statsOk_def)
  have c: "statsOk t \<Longrightarrow> statsOk (victory t)" for t by (simp add: statsOk_def victory_def)
  show ?thesis using b c by (simp add: nextLevel_def Let_def loadLevel_statsOk)
qed

lemma checkLevelCompletion_cases:
  "checkLevelCompletion s = Some s' \<Longrightarrow>
     (s' = nextLevel s \<and> (\<exists>g p. exitGate s = Some g \<and> gateOpen s \<and> player s = Some p \<and> distanceTo p g < 3))
     \<or> (s' = s \<and> \<not> (\<exists>g p. exitGate s = Some g \<and> gateOpen s \<and> player s = Some p \<and> distanceTo p g < 3))"
  by (auto simp: checkLevelCompletion_def split: option.splits if_splits)

lemma kept_refl: "kept s s" by (simp add: kept_def)
lemma kept_trans: "kept s t \<Longrightarrow> kept t u \<Longrightarrow> kept s u" by (simp add: kept_def)
lemma keeps_kept: "keeps s t \<Longrightarrow> kept s t" by (simp add: keeps_def kept_def)

lemma animate_kept: "animate t s = Some s' \<Longrightarrow> kept s s'"
  by (auto simp: animate_def kept_def statsOk_def split: option.splits if_splits)

lemma openGateAnimation_kept: "openGateAnimation s = Some s' \<Longrightarrow> kept s s'"
  by (auto simp: openGateAnimation_def kept_def statsOk_def animate_def
      split: option.splits Option.bind_splits if_splits)

lemma tryOpenGate_kept: "tryOpenGate s = Some s' \<Longrightarrow> kept s s'"
proof -
  assume a: "tryOpenGate s = Some s'"
  have g: "kept s (s\<lparr>gateOpen := True\<rparr>)" by (simp add: kept_def statsOk_def)
  have i: "kept t (t\<lparr>inventory := v\<rparr>)" for t v by (simp add: kept_def statsOk_def)
  have o: "openGateAnimation (s\<lparr>gateOpen := True\<rparr>) = Some t \<Longrightarrow> kept s t" for t
    using g openGateAnimation_kept kept_trans by blast
  from a consider "s' = s"
    | t where "openGateAnimation (s\<lparr>gateOpen := True\<rparr>) = Some t" "s' = t"
    | t v where "openGateAnimation (s\<lparr>gateOpen := True\<rparr>) = Some t" "s' = t\<lparr>inventory := v\<rparr>"
    by (auto simp: tryOpenGate_def split: if_splits option.splits Option.bind_splits)
  then show ?thesis
  proof cases
    case 1 then show ?thesis by (simp add: kept_refl)
  next
    case 2 then show ?thesis using o by simp
  next
    case 3 then show ?thesis using o i kept_trans by blast
  qed
qed

lemma runAction_kept: "runAction a s = Some s' \<Longrightarrow> kept s s'"
  by (cases a) (auto simp: runAction_def openPuzzle_def kept_def statsOk_def split: if_splits
      dest!: tryOpenGate_kept)

lemma interactLoop_kept: "interactLoop p xs s = Some s' \<Longrightarrow> kept s s'"
  by (induction xs) (auto simp: kept_refl split: if_splits dest!: runAction_kept)

lemma tryInteract_kept: "tryInteract s = Some s' \<Longrightarrow> kept s s'"
  by (auto simp: tryInteract_def split: option.splits dest!: interactLoop_kept)

lemma shoot_kept: "shoot now s = Some s' \<Longrightarrow> kept s s'"
  by (auto simp: shoot_def kept_def statsOk_def Let_def split: if_splits option.splits)

lemma closePuzzle_kept: "kept s (closePuzzle s)"
  by (simp add: kept_def statsOk_def closePuzzle_def)

lemma onKeyDown_kept: "onKeyDown code s = Some s' \<Longrightarrow> kept s s'"
proof -
  assume a: "onKeyDown code s = Some s'"
  let ?s0 = "s\<lparr>keys := (keys s)(code := True)\<rparr>"
  have k: "kept s ?s0" by (simp add: kept_def statsOk_def)
  from a obtain s1 where s1: "tryInteract ?s0 = Some s1 \<or> s1 = ?s0"
    and s': "s' = s1 \<or> s' = closePuzzle s1"
    by (auto simp: onKeyDown_def Let_def split: Option.bind_splits if_splits)
  from s1 have "kept ?s0 s1" using tryInteract_kept kept_refl by blast
  with k have "kept s s1" by (blast intro: kept_trans)
  with s' show ?thesis using closePuzzle_kept kept_trans by blast
qed

lemma onMouseDown_kept: "onMouseDown b now s = Some s' \<Longrightarrow> kept s s'"
proof -
  assume a: "onMouseDown b now s = Some s'"
  let ?s0 = "s\<lparr>mouseDown := True\<rparr>"
  have k: "kept s ?s0" by (simp add: kept_def statsOk_def)
  from a have "s' = s \<or> s' = ?s0 \<or> shoot now ?s0 = Some s'"
    by (auto simp: onMouseDown_def Let_def split: if_splits)
  then show ?thesis using k shoot_kept kept_refl kept_trans by blast
qed

lemma gameLoop_cases:
  assumes "gameLoop dt now s = Some s'"
  shows "(state s \<noteq> PLAYING \<and> kept s s')
     \<or> (\<exists>s5. state s = PLAYING \<and>
           updates (min dt 0.1) now (s\<lparr>animationTime := animationTime s + min dt 0.1\<rparr>) = Some s5 \<and>
           checkLevelCompletion s5 = Some s' \<and> keeps s s5)"
proof (cases "state s = PLAYING")
  case False
  with assms show ?thesis
    by (auto simp: gameLoop_def Let_def kept_def statsOk_def split: if_splits)
next
  case True
  let ?s0 = "s\<lparr>animationTime := animationTime s + min dt 0.1\<rparr>"
  from assms True obtain s5 where u: "updates (min dt 0.1) now ?s0 = Some s5"
    and c: "checkLevelCompletion s5 = Some s'"
    by (auto simp: gameLoop_def Let_def split: Option.bind_splits)
  have "keeps s ?s0" by (simp add: keeps_def statsOk_def)
  with updates_keeps[OF u] have "keeps s s5" by (blast intro: keeps_trans)
  with True u c show ?thesis by blast
qed

lemma checkLevelCompletion_statsOk:
  "checkLevelCompletion s = Some s' \<Longrightarrow> statsOk s \<Longrightarrow> statsOk s'"
  using checkLevelCompletion_cases nextLevel_statsOk by blast

lemma gameLoop_statsOk: "gameLoop dt now s = Some s' \<Longrightarrow> statsOk s \<Longrightarrow> statsOk s'"
  using gameLoop_cases[of dt now s s'] checkLevelCompletion_statsOk
  by (auto simp: kept_def keeps_def)

lemma resetPlayer_statsOk: "statsOk s \<Longrightarrow> statsOk (resetPlayer s)"
  by (simp add: statsOk_def resetPlayer_def)

lemma startGame_statsOk: "startGame dt now s = Some s' \<Longrightarrow> statsOk s \<Longrightarrow> statsOk s'"
proof -
  assume a: "startGame dt now s = Some s'" and b: "statsOk s"
  from b have "statsOk (s\<lparr>state := PLAYING, currentLevel := 1\<rparr>)" by (simp add: statsOk_def)
  then have "statsOk (loadLevel 1 (resetPlayer (s\<lparr>state := PLAYING, currentLevel := 1\<rparr>)))"
    by (intro loadLevel_statsOk resetPlayer_statsOk)
  with a show ?thesis unfolding startGame_def by (rule gameLoop_statsOk)
qed

lemma restartGame_statsOk: "statsOk s \<Longrightarrow> statsOk (restartGame s)"
proof -
  assume b: "statsOk s"
  then have "statsOk (s\<lparr>health := maxHealth s, ammo := maxAmmo s, inventory := [None, None, None],
            currentLevel := 1, state := PLAYING\<rparr>)" by (simp add: statsOk_def)
  then show ?thesis unfolding restartGame_def by (intro loadLevel_statsOk resetPlayer_statsOk)
qed

lemma runCallback_statsOk: "runCallback cb s = Some s' \<Longrightarrow> statsOk s \<Longrightarrow> statsOk s'"
  using animate_kept nextLevel_statsOk closePuzzle_kept
  by (cases cb) (auto simp: runCallback_def kept_def)

lemma fire_statsOk: "fire k s = Some s' \<Longrightarrow> statsOk s \<Longrightarrow> statsOk s'"
proof -
  assume a: "fire k s = Some s'" and b: "statsOk s"
  have "statsOk (s\<lparr>pending := v\<rparr>)" for v using b by (simp add: statsOk_def)
  with a b show ?thesis
    by (auto simp: fire_def split: if_splits dest: runCallback_statsOk)
qed

lemma step_statsOk: "step ev s = Some s' \<Longrightarrow> statsOk s \<Longrightarrow> statsOk s'"
proof (cases ev)
  case (ClickStart dt now) then show "step ev s = Some s' \<Longrightarrow> statsOk s \<Longrightarrow> statsOk s'"
    by (simp add: step_def startGame_statsOk)
next
  case ClickRestart then show "step ev s = Some s' \<Longrightarrow> statsOk s \<Longrightarrow> statsOk s'"
    by (auto simp: step_def restartGame_statsOk)
next
  case ClickPuzzleClose then show "step ev s = Some s' \<Longrightarrow> statsOk s \<Longrightarrow> statsOk s'"
    using closePuzzle_kept[of s] by (auto simp: step_def kept_def)
next
  case PuzzleSolved then show "step ev s = Some s' \<Longrightarrow> statsOk s \<Longrightarrow> statsOk s'"
    by (auto simp: step_def puzzleSolvedClick_def statsOk_def)
next
  case (KeyDown code) then show "step ev s = Some s' \<Longrightarrow> statsOk s \<Longrightarrow> statsOk s'"
    using onKeyDown_kept[of code s s'] by (auto simp: step_def kept_def)
next
  case (KeyUp code) then show "step ev s = Some s' \<Longrightarrow> statsOk s \<Longrightarrow> statsOk s'"
    by (auto simp: step_def onKeyUp_def statsOk_def)
next
  case (MouseDown b now) then show "step ev s = Some s' \<Longrightarrow> statsOk s \<Longrightarrow> statsOk s'"
    using onMouseDown_kept[of b now s s'] by (auto simp: step_def kept_def)
next
  case (MouseUp b) then show "step ev s = Some s' \<Longrightarrow> statsOk s \<Longrightarrow> statsOk s'"
    by (auto simp: step_def onMouseUp_def statsOk_def)
next
  case (MouseMove mx my) then show "step ev s = Some s' \<Longrightarrow> statsOk s \<Longrightarrow> statsOk s'"
    by (auto simp: step_def onMouseMove_def statsOk_def Let_def)
next
  case (PointerLockChange l) then show "step ev s = Some s' \<Longrightarrow> statsOk s \<Longrightarrow> statsOk s'"
    by (auto simp: step_def onPointerLockChange_def statsOk_def)
next
  case (Frame dt now) then show "step ev s = Some s' \<Longrightarrow> statsOk s \<Longrightarrow> statsOk s'"
    by (simp add: step_def gameLoop_statsOk)
next
  case (Fire k) then show "step ev s = Some s' \<Longrightarrow> statsOk s \<Longrightarrow> statsOk s'"
    by (simp add: step_def fire_statsOk)
qed

lemma run_statsOk: "run evs s = Some s' \<Longrightarrow> statsOk s \<Longrightarrow> statsOk s'"
proof (induction evs arbitrary: s)
  case Nil then show ?case by simp
next
  case (Cons ev evs)
  from Cons.prems(1) obtain s1 where a: "step ev s = Some s1" and b: "run evs s1 = Some s'"
    by (auto split: Option.bind_splits)
  from step_statsOk[OF a Cons.prems(2)] Cons.IH[OF b] show ?case by simp
qed

lemma statsOk_constructor: "statsOk constructor"
  by (simp add: statsOk_def constructor_def)

subsection \<open>The invariant of the hit resolution\<close>

text \<open>
  \<open>hitInv\<close> holds after every \<open>loadLevel\<close> (level 1 and 2 come with enemies and no
  boss, level 3 with the boss and no enemies; the projectile list is emptied), and every
  method keeps it: enemies are only ever removed, the boss is only ever removed, and each
  projectile is created with a single owner flag.
\<close>

lemma loadLevel_hitInv: "hitInv (loadLevel n s)"
  by (simp add: hitInv_def loadLevel_def clearLevel_def create_defs Let_def)

lemma nextLevel_hitInv: "hitInv s \<Longrightarrow> hitInv (nextLevel s)"
proof -
  assume a: "hitInv s"
  have "hitInv (victory (s\<lparr>currentLevel := c\<rparr>))" for c
    using a by (simp add: hitInv_def victory_def)
  then show ?thesis by (simp add: nextLevel_def Let_def loadLevel_hitInv)
qed

lemma checkPlatformCollision_hitInv:
  "checkPlatformCollision pl s = Some (h, s') \<Longrightarrow> hitInv s \<Longrightarrow> hitInv s'"
  by (auto simp: checkPlatformCollision_def land_def hitInv_def Let_def
      split: option.splits if_splits)

lemma platformLoop_hitInv: "platformLoop pls s = Some s' \<Longrightarrow> hitInv s \<Longrightarrow> hitInv s'"
proof (induction pls arbitrary: s)
  case Nil then show ?case by simp
next
  case (Cons pl pls)
  from Cons.prems(1) obtain h s1 where c: "checkPlatformCollision pl s = Some (h, s1)"
    and r: "if h then s' = s1 else platformLoop pls s1 = Some s'"
    by (auto split: option.splits if_splits)
  have k: "hitInv s1" by (rule checkPlatformCollision_hitInv[OF c Cons.prems(2)])
  show ?case
  proof (cases h)
    case True with r k show ?thesis by simp
  next
    case False
    with r have "platformLoop pls s1 = Some s'" by simp
    from Cons.IH[OF this k] show ?thesis .
  qed
qed

lemma updatePlayer_hitInv: "updatePlayer delta s = Some s' \<Longrightarrow> hitInv s \<Longrightarrow> hitInv s'"
proof -
  assume a: "updatePlayer delta s = Some s'" and i: "hitInv s"
  show ?thesis
  proof (cases "player s")
    case None with a i show ?thesis by (simp add: updatePlayer_def)
  next
    case (Some p0)
    with a obtain s2 where s2: "platformLoop (platforms (movePlayer delta p0 s)) (movePlayer delta p0 s) = Some s2"
      and s': "s' = groundLevel s2"
      by (auto simp: updatePlayer_def Let_def split: Option.bind_splits)
    have m: "hitInv (movePlayer delta p0 s)" using i by (simp add: movePlayer_def hitInv_def Let_def)
    have g: "hitInv t \<Longrightarrow> hitInv (groundLevel t)" for t
      by (simp add: groundLevel_def land_def hitInv_def split: option.splits)
    from platformLoop_hitInv[OF s2 m] g show ?thesis unfolding s' by blast
  qed
qed

lemma enemyStep_hitInv_case:
  "(case enemyStep delta now p i s of None \<Rightarrow> True | Some s' \<Rightarrow> hitInv s \<longrightarrow> hitInv s')"
  by (auto simp: enemyStep_def enemyShoot_def takeDamage_def gameOver_def hitInv_def
      oneOwner_def Let_def split: option.split)

lemma enemyStep_hitInv: "enemyStep delta now p i s = Some s' \<Longrightarrow> hitInv s \<Longrightarrow> hitInv s'"
  using enemyStep_hitInv_case[where delta=delta and now=now and p=p and i=i and s=s] by simp

lemma enemiesLoop_hitInv: "enemiesLoop delta now p n s = Some s' \<Longrightarrow> hitInv s \<Longrightarrow> hitInv s'"
proof (induction n arbitrary: s)
  case 0 then show ?case by simp
next
  case (Suc n)
  from Suc.prems(1) obtain s1 where a: "enemyStep delta now p n s = Some s1"
    and b: "enemiesLoop delta now p n s1 = Some s'"
    by (auto split: Option.bind_splits)
  from Suc.IH[OF b enemyStep_hitInv[OF a Suc.prems(2)]] show ?case .
qed

lemma updateEnemies_hitInv: "updateEnemies delta now s = Some s' \<Longrightarrow> hitInv s \<Longrightarrow> hitInv s'"
  by (auto simp: updateEnemies_def split: option.splits dest: enemiesLoop_hitInv)

lemma updateBoss_hitInv_case:
  "(case updateBoss delta now s of None \<Rightarrow> True | Some s' \<Rightarrow> hitInv s \<longrightarrow> hitInv s')"
  by (auto simp: updateBoss_def bossGroundSlam_def bossIceAttack_def iceShard_def victory_def
      takeDamage_def gameOver_def hitInv_def oneOwner_def Let_def split: option.split)

lemma updateBoss_hitInv: "updateBoss delta now s = Some s' \<Longrightarrow> hitInv s \<Longrightarrow> hitInv s'"
  using updateBoss_hitInv_case[where delta=delta and now=now and s=s] by simp

lemma hitEnemy_Nil_iff: "fst (hitEnemy pos d es) = [] \<longleftrightarrow> es = []"
  by (cases es) (auto split: prod.splits)

lemma oneOwner_nth: "list_all oneOwner ps \<Longrightarrow> i < length ps \<Longrightarrow> oneOwner (ps ! i)"
  by (simp add: list_all_length)

lemma oneOwner_moved: "oneOwner (p\<lparr>prposition := v\<rparr>) = oneOwner p"
  by (simp add: oneOwner_def)

lemma projectileStep_hitInv_case:
  "(case projectileStep delta now i s of None \<Rightarrow> True | Some s' \<Rightarrow> hitInv s \<longrightarrow> hitInv s')"
  by (auto simp: projectileStep_def takeDamage_def gameOver_def hitInv_def oneOwner_moved
      Let_def list_all_update list_all_splice1 oneOwner_nth split: option.split prod.split)

lemma projectileStep_hitInv:
  "projectileStep delta now i s = Some s' \<Longrightarrow> hitInv s \<Longrightarrow> hitInv s'"
  using projectileStep_hitInv_case[where delta=delta and now=now and i=i and s=s] by simp

lemma projectilesLoop_hitInv:
  "projectilesLoop delta now n s = Some s' \<Longrightarrow> hitInv s \<Longrightarrow> hitInv s'"
proof (induction n arbitrary: s)
  case 0 then show ?case by simp
next
  case (Suc n)
  from Suc.prems(1) obtain s1 where a: "projectileStep delta now n s = Some s1"
    and b: "projectilesLoop delta now n s1 = Some s'"
    by (auto split: Option.bind_splits)
  from Suc.IH[OF b projectileStep_hitInv[OF a Suc.prems(2)]] show ?case .
qed

lemma collectibleStep_hitInv_case:
  "(case collectibleStep p i s of None \<Rightarrow> True | Some s' \<Rightarrow> hitInv s \<longrightarrow> hitInv s')"
  by (auto simp: collectibleStep_def collectItem_def hitInv_def Let_def split: option.split)

lemma collectiblesLoop_hitInv:
  "collectiblesLoop p n s = Some s' \<Longrightarrow> hitInv s \<Longrightarrow> hitInv s'"
proof (induction n arbitrary: s)
  case 0 then show ?case by simp
next
  case (Suc n)
  from Suc.prems(1) obtain s1 where a: "collectibleStep p n s = Some s1"
    and b: "collectiblesLoop p n s1 = Some s'"
    by (auto split: Option.bind_splits)
  from collectibleStep_hitInv_case[where p=p and i=n and s=s] a Suc.prems(2)
  have "hitInv s1" by simp
  from Suc.IH[OF b this] show ?case .
qed

lemma updates_hitInv: "updates delta now s = Some s' \<Longrightarrow> hitInv s \<Longrightarrow> hitInv s'"
proof -
  assume u: "updates delta now s = Some s'" and i: "hitInv s"
  from u obtain s1 s2 s3 s4 where a: "updatePlayer delta s = Some s1"
    "updateEnemies delta now s1 = Some s2" "updateBoss delta now s2 = Some s3"
    "updateProjectiles delta now s3 = Some s4" "updateCollectibles s4 = Some s'"
    by (auto simp: updates_def split: Option.bind_splits)
  have 1: "hitInv s1" by (rule updatePlayer_hitInv[OF a(1) i])
  have 2: "hitInv s2" by (rule updateEnemies_hitInv[OF a(2) 1])
  have 3: "hitInv s3" by (rule updateBoss_hitInv[OF a(3) 2])
  have 4: "hitInv s4" using a(4) 3 by (auto simp: updateProjectiles_def dest: projectilesLoop_hitInv)
  show ?thesis using a(5) 4
    by (auto simp: updateCollectibles_def split: option.splits dest: collectiblesLoop_hitInv)
qed

lemma frame_same_hitInv:
  "boss s' = boss s \<Longrightarrow> enemies s' = enemies s \<Longrightarrow> projectiles s' = projectiles s \<Longrightarrow>
   hitInv s \<Longrightarrow> hitInv s'"
  by (simp add: hitInv_def)

lemma gameLoop_hitInv: "gameLoop dt now s = Some s' \<Longrightarrow> hitInv s \<Longrightarrow> hitInv s'"
proof (cases "state s = PLAYING")
  case False
  assume "gameLoop dt now s = Some s'" "hitInv s"
  with False show ?thesis
    by (auto simp: gameLoop_def Let_def hitInv_def split: if_splits)
next
  case True
  assume g: "gameLoop dt now s = Some s'" and i: "hitInv s"
  let ?s0 = "s\<lparr>animationTime := animationTime s + min dt 0.1\<rparr>"
  from g True obtain s5 where u: "updates (min dt 0.1) now ?s0 = Some s5"
    and c: "checkLevelCompletion s5 = Some s'"
    by (auto simp: gameLoop_def Let_def split: Option.bind_splits)
  have "hitInv ?s0" using i by (simp add: hitInv_def)
  from updates_hitInv[OF u this] have "hitInv s5" .
  with checkLevelCompletion_cases[OF c] nextLevel_hitInv show ?thesis by blast
qed

lemma animate_hitInv: "animate t s = Some s' \<Longrightarrow> hitInv s \<Longrightarrow> hitInv s'"
  by (auto simp: animate_def hitInv_def split: option.splits if_splits)

lemma openGateAnimation_hitInv: "openGateAnimation s = Some s' \<Longrightarrow> hitInv s \<Longrightarrow> hitInv s'"
  by (auto simp: openGateAnimation_def hitInv_def animate_def
      split: option.splits Option.bind_splits if_splits)

lemma tryOpenGate_hitInv: "tryOpenGate s = Some s' \<Longrightarrow> hitInv s \<Longrightarrow> hitInv s'"
proof -
  assume a: "tryOpenGate s = Some s'" and h: "hitInv s"
  have g: "hitInv (s\<lparr>gateOpen := True\<rparr>)" using h by (simp add: hitInv_def)
  have i: "hitInv t \<Longrightarrow> hitInv (t\<lparr>inventory := v\<rparr>)" for t v by (simp add: hitInv_def)
  have o: "openGateAnimation (s\<lparr>gateOpen := True\<rparr>) = Some t \<Longrightarrow> hitInv t" for t
    using g openGateAnimation_hitInv by blast
  from a consider "s' = s"
    | t where "openGateAnimation (s\<lparr>gateOpen := True\<rparr>) = Some t" "s' = t"
    | t v where "openGateAnimation (s\<lparr>gateOpen := True\<rparr>) = Some t" "s' = t\<lparr>inventory := v\<rparr>"
    by (auto simp: tryOpenGate_def split: if_splits option.splits Option.bind_splits)
  then show ?thesis
  proof cases
    case 1 then show ?thesis using h by simp
  next
    case 2 then show ?thesis using o by simp
  next
    case 3 then show ?thesis using o i by blast
  qed
qed

lemma runAction_hitInv: "runAction a s = Some s' \<Longrightarrow> hitInv s \<Longrightarrow> hitInv s'"
  by (cases a) (auto simp: runAction_def openPuzzle_def hitInv_def split: if_splits
      dest!: tryOpenGate_hitInv)

lemma interactLoop_hitInv: "interactLoop p xs s = Some s' \<Longrightarrow> hitInv s \<Longrightarrow> hitInv s'"
  by (induction xs) (auto split: if_splits dest: runAction_hitInv)

lemma shoot_hitInv: "shoot now s = Some s' \<Longrightarrow> hitInv s \<Longrightarrow> hitInv s'"
  by (auto simp: shoot_def hitInv_def oneOwner_def Let_def split: if_splits option.splits)

lemma onKeyDown_hitInv: "onKeyDown code s = Some s' \<Longrightarrow> hitInv s \<Longrightarrow> hitInv s'"
proof -
  assume a: "onKeyDown code s = Some s'" and i: "hitInv s"
  let ?s0 = "s\<lparr>keys := (keys s)(code := True)\<rparr>"
  have k: "hitInv ?s0" using i by (simp add: hitInv_def)
  have c: "hitInv t \<Longrightarrow> hitInv (closePuzzle t)" for t by (simp add: hitInv_def closePuzzle_def)
  from a obtain s1 where s1: "tryInteract ?s0 = Some s1 \<or> s1 = ?s0"
    and s': "s' = s1 \<or> s' = closePuzzle s1"
    by (auto simp: onKeyDown_def Let_def split: Option.bind_splits if_splits)
  from s1 k have "hitInv s1"
    by (auto simp: tryInteract_def split: option.splits dest: interactLoop_hitInv)
  with s' c show ?thesis by blast
qed

lemma onMouseDown_hitInv: "onMouseDown b now s = Some s' \<Longrightarrow> hitInv s \<Longrightarrow> hitInv s'"
proof -
  assume a: "onMouseDown b now s = Some s'" and i: "hitInv s"
  let ?s0 = "s\<lparr>mouseDown := True\<rparr>"
  have k: "hitInv ?s0" using i by (simp add: hitInv_def)
  from a have "s' = s \<or> s' = ?s0 \<or> shoot now ?s0 = Some s'"
    by (auto simp: onMouseDown_def Let_def split: if_splits)
  then show ?thesis using k i shoot_hitInv by blast
qed

lemma runCallback_hitInv: "runCallback cb s = Some s' \<Longrightarrow> hitInv s \<Longrightarrow> hitInv s'"
proof (cases cb)
  case NextLevelTimer then show "runCallback cb s = Some s' \<Longrightarrow> hitInv s \<Longrightarrow> hitInv s'"
    by (auto simp: runCallback_def nextLevel_hitInv)
next
  case (GateAnimate y) then show "runCallback cb s = Some s' \<Longrightarrow> hitInv s \<Longrightarrow> hitInv s'"
    by (auto simp: runCallback_def dest: animate_hitInv)
next
  case ClosePuzzleTimer then show "runCallback cb s = Some s' \<Longrightarrow> hitInv s \<Longrightarrow> hitInv s'"
    by (auto simp: runCallback_def closePuzzle_def hitInv_def)
qed

lemma fire_hitInv: "fire k s = Some s' \<Longrightarrow> hitInv s \<Longrightarrow> hitInv s'"
proof -
  assume a: "fire k s = Some s'" and b: "hitInv s"
  have "hitInv (s\<lparr>pending := v\<rparr>)" for v using b by (simp add: hitInv_def)
  with a b show ?thesis
    by (auto simp: fire_def split: if_splits dest: runCallback_hitInv)
qed

lemma step_hitInv: "step ev s = Some s' \<Longrightarrow> hitInv s \<Longrightarrow> hitInv s'"
proof (cases ev)
  case (ClickStart dt now) then show "step ev s = Some s' \<Longrightarrow> hitInv s \<Longrightarrow> hitInv s'"
    using gameLoop_hitInv[OF _ loadLevel_hitInv] by (simp add: step_def startGame_def)
next
  case ClickRestart then show "step ev s = Some s' \<Longrightarrow> hitInv s \<Longrightarrow> hitInv s'"
    by (auto simp: step_def restartGame_def loadLevel_hitInv)
next
  case ClickPuzzleClose then show "step ev s = Some s' \<Longrightarrow> hitInv s \<Longrightarrow> hitInv s'"
    by (auto simp: step_def closePuzzle_def hitInv_def)
next
  case PuzzleSolved then show "step ev s = Some s' \<Longrightarrow> hitInv s \<Longrightarrow> hitInv s'"
    by (auto simp: step_def puzzleSolvedClick_def hitInv_def)
next
  case (KeyDown code) then show "step ev s = Some s' \<Longrightarrow> hitInv s \<Longrightarrow> hitInv s'"
    by (simp add: step_def onKeyDown_hitInv)
next
  case (KeyUp code) then show "step ev s = Some s' \<Longrightarrow> hitInv s \<Longrightarrow> hitInv s'"
    by (auto simp: step_def onKeyUp_def hitInv_def)
next
  case (MouseDown b now) then show "step ev s = Some s' \<Longrightarrow> hitInv s \<Longrightarrow> hitInv s'"
    by (simp add: step_def onMouseDown_hitInv)
next
  case (MouseUp b) then show "step ev s = Some s' \<Longrightarrow> hitInv s \<Longrightarrow> hitInv s'"
    by (auto simp: step_def onMouseUp_def hitInv_def split: if_splits)
next
  case (MouseMove mx my) then show "step ev s = Some s' \<Longrightarrow> hitInv s \<Longrightarrow> hitInv s'"
    by (auto simp: step_def onMouseMove_def hitInv_def Let_def split: if_splits)
next
  case (PointerLockChange l) then show "step ev s = Some s' \<Longrightarrow> hitInv s \<Longrightarrow> hitInv s'"
    by (auto simp: step_def onPointerLockChange_def hitInv_def)
next
  case (Frame dt now) then show "step ev s = Some s' \<Longrightarrow> hitInv s \<Longrightarrow> hitInv s'"
    by (simp add: step_def gameLoop_hitInv)
next
  case (Fire k) then show "step ev s = Some s' \<Longrightarrow> hitInv s \<Longrightarrow> hitInv s'"
    by (simp add: step_def fire_hitInv)
qed

lemma run_hitInv: "run evs s = Some s' \<Longrightarrow> hitInv s \<Longrightarrow> hitInv s'"
proof (induction evs arbitrary: s)
  case Nil then show ?case by simp
next
  case (Cons ev evs)
  from Cons.prems(1) obtain s1 where a: "step ev s = Some s1" and b: "run evs s1 = Some s'"
    by (auto split: Option.bind_splits)
  from Cons.IH[OF b step_hitInv[OF a Cons.prems(2)]] show ?case .
qed

lemma hitInv_constructor: "hitInv constructor"
  by (simp add: hitInv_def constructor_def)

subsection \<open>The updates before \<open>updateProjectiles\<close> return\<close>

text \<open>With a player in the scene, the first three updates of a frame do not throw.\<close>

lemma checkPlatformCollision_total_case:
  "(case checkPlatformCollision pl s of None \<Rightarrow> player s = None
    | Some (h, s') \<Rightarrow> player s \<noteq> None \<longrightarrow> player s' \<noteq> None)"
  by (auto simp: checkPlatformCollision_def land_def Let_def split: option.split)

lemma platformLoop_total:
  "player s \<noteq> None \<Longrightarrow> \<exists>s'. platformLoop pls s = Some s' \<and> player s' \<noteq> None"
proof (induction pls arbitrary: s)
  case Nil then show ?case by simp
next
  case (Cons pl pls)
  from checkPlatformCollision_total_case[where pl=pl and s=s] Cons.prems
  obtain h s1 where c: "checkPlatformCollision pl s = Some (h, s1)" and p: "player s1 \<noteq> None"
    by (cases "checkPlatformCollision pl s") auto
  from Cons.IH[OF p] c p show ?case by (cases h) auto
qed

lemma updatePlayer_total:
  "player s \<noteq> None \<Longrightarrow> \<exists>s'. updatePlayer delta s = Some s' \<and> player s' \<noteq> None"
proof -
  assume "player s \<noteq> None"
  then obtain p0 where p0: "player s = Some p0" by auto
  have m: "player (movePlayer delta p0 s) \<noteq> None" by (simp add: movePlayer_def Let_def)
  from platformLoop_total[OF m, of "platforms (movePlayer delta p0 s)"]
  obtain s2 where l: "platformLoop (platforms (movePlayer delta p0 s)) (movePlayer delta p0 s) = Some s2"
    and p2: "player s2 \<noteq> None" by blast
  have "player (groundLevel s2) \<noteq> None"
    using p2 by (auto simp: groundLevel_def land_def split: option.split)
  with p0 l show ?thesis by (simp add: updatePlayer_def Let_def)
qed

lemma enemyStep_total_case:
  "(case enemyStep delta now pp i s of None \<Rightarrow> \<not> i < length (enemies s)
    | Some s' \<Rightarrow> player s' = player s \<and> (i < length (enemies s) \<longrightarrow> i \<le> length (enemies s')))"
  by (auto simp: enemyStep_def enemyShoot_def takeDamage_def gameOver_def splice1_def Let_def
      split: option.split)

lemma enemiesLoop_total:
  "n \<le> length (enemies s) \<Longrightarrow>
   \<exists>s'. enemiesLoop delta now pp n s = Some s' \<and> player s' = player s"
proof (induction n arbitrary: s)
  case 0 then show ?case by simp
next
  case (Suc n)
  from enemyStep_total_case[where delta=delta and now=now and pp=pp and i=n and s=s] Suc.prems
  obtain s1 where a: "enemyStep delta now pp n s = Some s1" and p: "player s1 = player s"
    and l: "n \<le> length (enemies s1)"
    by (cases "enemyStep delta now pp n s") auto
  from Suc.IH[OF l] a p show ?case by auto
qed

lemma updateEnemies_total:
  "player s \<noteq> None \<Longrightarrow> \<exists>s'. updateEnemies delta now s = Some s' \<and> player s' \<noteq> None"
proof -
  assume "player s \<noteq> None"
  then obtain p where p: "player s = Some p" by auto
  from enemiesLoop_total[where n="length (enemies s)" and s=s and delta=delta and now=now and pp=p]
  show ?thesis using p by (auto simp: updateEnemies_def)
qed

lemma updateBoss_total:
  "player s \<noteq> None \<Longrightarrow> \<exists>s'. updateBoss delta now s = Some s'"
  by (auto simp: updateBoss_def bossGroundSlam_def bossIceAttack_def takeDamage_def gameOver_def
      Let_def split: option.split)

subsection \<open>The example states\<close>

lemma lair_fields:
  "boss lair = Some \<lparr>bposition = vec 0 1 (- 10), blastAttack = None\<rparr>"
  "currentLevel lair = 3" "player lair = Some (vec 0 1 30)"
  "bossHealth lair = 50" "bossMaxHealth lair = 100"
  by (simp_all add: lair_def loadLevel_3 loadLevel_frame, simp_all add: constructor_def)

lemma restart_fields:
  "state (restartGame constructor) = PLAYING"
  "player (restartGame constructor) = Some (vec 0 1 0)"
  "ammo (restartGame constructor) = 30"
  "health (restartGame constructor) = 100"
  "maxHealth (restartGame constructor) = 100"
  "maxAmmo (restartGame constructor) = 30"
  "lastShootTime (restartGame constructor) = 0"
  "shootCooldown (restartGame constructor) = 0.25"
  "cameraRotationX (restartGame constructor) = 0"
  "cameraRotationY (restartGame constructor) = 0"
  "projectiles (restartGame constructor) = []"
  by (simp_all add: restartGame_def loadLevel_frame loadLevel_1 resetPlayer_def,
      simp_all add: constructor_def loadLevel_def clearLevel_def create_defs Let_def)

lemma run_firstShot:
  "run [ClickRestart, PointerLockChange True, MouseDown 0 1] constructor = Some firstShot"
  by (simp add: step_def onPointerLockChange_def onMouseDown_def shoot_def restart_fields
      applyAxisAngleX_def applyAxisAngleY_def multiplyScalar_def vec_def firstShot_def Let_def)

lemma firstShot_fields:
  "health firstShot = 100" "maxHealth firstShot = 100" "ammo firstShot = 29"
  "maxAmmo firstShot = 30" "player firstShot = Some (vec 0 1 0)"
  "lastShootTime firstShot = 1" "shootCooldown firstShot = 0.25"
  "collectibles firstShot =
     [\<lparr>cposition = vec 5 3 (- 10), ctype = ''ammo''\<rparr>,
      \<lparr>cposition = vec 12 4.5 (- 15), ctype = ''health''\<rparr>,
      \<lparr>cposition = vec 18 6 (- 10), ctype = ''ammo''\<rparr>,
      \<lparr>cposition = vec (- 25) 6.5 5, ctype = ''key''\<rparr>]"
  by (simp_all add: firstShot_def restart_fields,
      simp_all add: restartGame_def loadLevel_def clearLevel_def create_defs Let_def resetPlayer_def)

lemma firstShot_scene:
  "projectiles firstShot =
     [\<lparr>prposition = vec 0 2.5 0, velocity = vec 0 0 (- 50),
       isPlayerProjectile = True, isEnemyProjectile = False,
       damage = 10, lifetime = 2, spawnTime = 1\<rparr>]"
  "enemies firstShot =
     [\<lparr>eposition = vec (- 22) 1 8, ehealth = 30, speed = 4, edamage = 10, attackRange = 2,
       aggroRange = 15, etype = ''wolf'', canShoot = False, lastShot = 0, lastAttack = None\<rparr>,
      \<lparr>eposition = vec (- 8) 1 (- 5), ehealth = 30, speed = 4, edamage = 10, attackRange = 2,
       aggroRange = 15, etype = ''wolf'', canShoot = False, lastShot = 0, lastAttack = None\<rparr>,
      \<lparr>eposition = vec 10 1 5, ehealth = 30, speed = 4, edamage = 10, attackRange = 2,
       aggroRange = 15, etype = ''wolf'', canShoot = False, lastShot = 0, lastAttack = None\<rparr>]"
  "boss firstShot = None"
  by (simp_all add: firstShot_def,
      simp_all add: restartGame_def loadLevel_def clearLevel_def create_defs Let_def resetPlayer_def)

lemma ambush_fields:
  "projectiles ambush =
     [\<lparr>prposition = vec 0 2.5 0, velocity = vec 0 0 (- 50),
       isPlayerProjectile = True, isEnemyProjectile = False,
       damage = 10, lifetime = 2, spawnTime = 1\<rparr>,
      \<lparr>prposition = vec 10 1.5 5.5, velocity = vec 0 0 (- 50),
       isPlayerProjectile = True, isEnemyProjectile = False,
       damage = 10, lifetime = 2, spawnTime = 1\<rparr>]"
  "enemies ambush = enemies firstShot" "boss ambush = None"
  "player ambush = Some (vec 0 1 0)" "bossHealth ambush = bossHealth firstShot"
  "health ambush = 100"
  by (simp_all add: ambush_def firstShot_scene firstShot_fields)

lemma atGate_fields:
  "currentLevel (atGate z) = 1" "maxLevels (atGate z) = 3" "state (atGate z) = PLAYING"
  "inventory (atGate z) = [Some crystalKey, None, None]"
  "player (atGate z) = Some (vec 35 1 z)"
  "exitGate (atGate z) = Some (vec 35 2.5 (- 15))"
  "interactables (atGate z) =
     [\<lparr>iposition = vec 35 2 (- 15), radius = 3, itag = ''gate'', iaction = TryOpenGateAction\<rparr>]"
  "pending (atGate z) = []" "gateOpen (atGate z) = False"
  by (simp_all add: atGate_def loadLevel_frame loadLevel_1, simp_all add: constructor_def)

lemma tryInteract_atGate:
  assumes "distanceToSquared (vec 35 1 z) (vec 35 2 (- 15)) < 9"
  shows "tryInteract (atGate z) = Some (gateOpened z)"
  using assms
  by (simp add: tryInteract_def atGate_fields runAction_def tryOpenGate_def isKey_def crystalKey_def
      openGateAnimation_def animate_def distanceTo_less_iff gateOpened_def vec_def)

lemma gateOpened_fields:
  "currentLevel (gateOpened z) = 1" "maxLevels (gateOpened z) = 3" "state (gateOpened z) = PLAYING"
  "player (gateOpened z) = Some (vec 35 1 z)"
  "exitGate (gateOpened z) = Some (vec 35 2.6 (- 15))"
  "pending (gateOpened z) = [GateAnimate 7.5, NextLevelTimer]" "gateOpen (gateOpened z) = True"
  by (simp_all add: gateOpened_def atGate_fields)

lemma nextLevel_gateOpened: "nextLevel (gateOpened z) = temple z"
  by (simp add: nextLevel_def gateOpened_fields temple_def)

lemma completion_near:
  assumes "distanceToSquared (vec 35 1 z) (vec 35 2.6 (- 15)) < 9"
  shows "checkLevelCompletion (gateOpened z) = Some (temple z)"
  using assms
  by (simp add: checkLevelCompletion_def gateOpened_fields distanceTo_less_iff nextLevel_gateOpened)

lemma completion_far:
  assumes "\<not> distanceToSquared (vec 35 1 z) (vec 35 2.6 (- 15)) < 9"
  shows "checkLevelCompletion (gateOpened z) = Some (gateOpened z)"
  using assms
  by (simp add: checkLevelCompletion_def gateOpened_fields distanceTo_less_iff)

lemma temple_fields:
  "currentLevel (temple z) = 2" "gateOpen (temple z) = False" "puzzleSolved (temple z) = False"
  "state (temple z) = PLAYING" "maxLevels (temple z) = 3"
  "pending (temple z) = [GateAnimate 7.5, NextLevelTimer]"
  "exitGate (temple z) = Some (vec 0 6.5 (- 40))"
  by (simp_all add: temple_def loadLevel_frame loadLevel_2 gateOpened_fields)

lemma tryOpenGate_atGate: "tryOpenGate (atGate z) = Some (gateOpened z)"
  by (simp add: atGate_fields tryOpenGate_def isKey_def crystalKey_def
      openGateAnimation_def animate_def gateOpened_def vec_def)

section \<open>The claims\<close>

subsection \<open>Shooting\<close>

text \<open>
  C8. A call of \<open>shoot\<close> with no ammunition returns the state as it was: no projectile is
  added and the ammunition stays 0.
\<close>

theorem shoot_no_ammo:
  "ammo s = 0 \<Longrightarrow> shoot now s = Some s"
  by (simp add: shoot_def)

theorem shoot_no_ammo_witness:
  "ammo (constructor\<lparr>ammo := 0\<rparr>) = 0 \<and>
   shoot 5 (constructor\<lparr>ammo := 0\<rparr>) = Some (constructor\<lparr>ammo := 0\<rparr>)"
  using shoot_no_ammo [of "constructor\<lparr>ammo := 0\<rparr>" 5] by simp

text \<open>
  C10. A call of \<open>shoot\<close> inside the cooldown window returns the state as it was: ammo,
  \<open>lastShootTime\<close> and the projectile list are untouched, so the window is not restarted.
\<close>

theorem shoot_cooldown_blocked:
  "now - lastShootTime s < shootCooldown s \<Longrightarrow> shoot now s = Some s"
  by (simp add: shoot_def)

theorem shoot_cooldown_blocked_witness:
  "(0.1::real) - lastShootTime constructor < shootCooldown constructor \<and>
   shoot 0.1 constructor = Some constructor"
proof -
  have "(0.1::real) - lastShootTime constructor < shootCooldown constructor"
    by (simp add: constructor_def)
  then show ?thesis using shoot_cooldown_blocked [of "0.1" constructor] by simp
qed

subsection \<open>Damage and game over\<close>



subsection \<open>Opening the gate\<close>

lemma findIndex_list_ex: "list_ex P xs \<Longrightarrow> \<exists>k. findIndex P xs = Some k"
  by (induction xs) auto

lemma findIndex_Some:
  "findIndex P xs = Some k \<Longrightarrow> k < length xs \<and> P (xs ! k) \<and> (\<forall>j<k. \<not> P (xs ! j))"
proof (induction xs arbitrary: k)
  case Nil then show ?case by simp
next
  case (Cons x xs)
  show ?case
  proof (cases "P x")
    case True with Cons.prems show ?thesis by simp
  next
    case False
    with Cons.prems obtain k' where k': "findIndex P xs = Some k'" "k = Suc k'" by auto
    from Cons.IH[OF k'(1)] False k'(2) show ?thesis
      by (auto simp: less_Suc_eq_0_disj)
  qed
qed

lemma filter_update_None:
  "k < length xs \<Longrightarrow> isKey (xs ! k) \<Longrightarrow>
   Suc (length (filter isKey (xs[k := None]))) = length (filter isKey xs)"
proof (induction xs arbitrary: k)
  case Nil then show ?case by simp
next
  case (Cons x xs)
  then show ?case by (cases k) (auto simp: isKey_def)
qed

lemma animate_frame:
  "animate t s = Some s' \<Longrightarrow>
     inventory s' = inventory s \<and> gateOpen s' = gateOpen s \<and> puzzleSolved s' = puzzleSolved s
     \<and> currentLevel s' = currentLevel s"
  by (auto simp: animate_def split: option.splits if_splits)

lemma openGateAnimation_total: "\<exists>s'. openGateAnimation s = Some s'"
  by (auto simp: openGateAnimation_def animate_def split: option.splits)

lemma openGateAnimation_frame:
  "openGateAnimation s = Some s' \<Longrightarrow>
     inventory s' = inventory s \<and> gateOpen s' = gateOpen s \<and> puzzleSolved s' = puzzleSolved s
     \<and> currentLevel s' = currentLevel s"
  by (auto simp: openGateAnimation_def animate_def split: option.splits if_splits Option.bind_splits)

text \<open>
  C5. \<open>tryOpenGate\<close> always returns. On level 1 the gate is open afterwards iff it was
  open before or the inventory holds a key; with a key, the first key slot is emptied and
  the number of keys drops by exactly one; without a key nothing changes. On level 2 the
  gate is open afterwards iff it was open before or \<open>puzzleSolved\<close> holds, and
  \<open>puzzleSolved\<close> and the inventory are left as they were. On every other level the
  state is unchanged: the gate stays closed.
\<close>

theorem tryOpenGate_levels:
  "\<exists>s'. tryOpenGate s = Some s' \<and>
     (currentLevel s = 1 \<longrightarrow>
        gateOpen s' = (gateOpen s \<or> list_ex isKey (inventory s)) \<and>
        (list_ex isKey (inventory s) \<longrightarrow>
           Suc (length (filter isKey (inventory s'))) = length (filter isKey (inventory s)) \<and>
           (\<exists>k. findIndex isKey (inventory s) = Some k \<and> inventory s' = (inventory s)[k := None])) \<and>
        (\<not> list_ex isKey (inventory s) \<longrightarrow> s' = s)) \<and>
     (currentLevel s = 2 \<longrightarrow>
        gateOpen s' = (gateOpen s \<or> puzzleSolved s) \<and> puzzleSolved s' = puzzleSolved s \<and>
        inventory s' = inventory s \<and> (\<not> puzzleSolved s \<longrightarrow> s' = s)) \<and>
     (currentLevel s \<noteq> 1 \<and> currentLevel s \<noteq> 2 \<longrightarrow> s' = s)"
proof -
  obtain t where t: "openGateAnimation (s\<lparr>gateOpen := True\<rparr>) = Some t"
    using openGateAnimation_total by blast
  note fr = openGateAnimation_frame[OF t]
  consider (l1k) "currentLevel s = 1" "list_ex isKey (inventory s)"
    | (l1n) "currentLevel s = 1" "\<not> list_ex isKey (inventory s)"
    | (l2) "currentLevel s = 2" | (other) "currentLevel s \<noteq> 1" "currentLevel s \<noteq> 2"
    by blast
  then show ?thesis
  proof cases
    case l1k
    obtain k where k: "findIndex isKey (inventory s) = Some k"
      using findIndex_list_ex[OF l1k(2)] by blast
    have "tryOpenGate s = Some (t\<lparr>inventory := (inventory s)[k := None]\<rparr>)"
      using l1k t fr k by (simp add: tryOpenGate_def)
    moreover have "Suc (length (filter isKey ((inventory s)[k := None]))) = length (filter isKey (inventory s))"
      using findIndex_Some[OF k] filter_update_None by blast
    ultimately show ?thesis using l1k fr k by simp
  next
    case l1n
    then show ?thesis by (simp add: tryOpenGate_def)
  next
    case l2
    then show ?thesis using t fr by (simp add: tryOpenGate_def)
  next
    case other
    then show ?thesis by (simp add: tryOpenGate_def)
  qed
qed

text \<open>
  Witness: level 1 with the key (the gate opens, the key is gone) and without one (nothing
  changes), level 2 with the puzzle unsolved (nothing changes) and solved (the gate opens,
  \<open>puzzleSolved\<close> stays), and level 3 (nothing changes).
\<close>

theorem tryOpenGate_levels_witness:
  "currentLevel (atGate (- 13)) = 1 \<and> list_ex isKey (inventory (atGate (- 13))) \<and>
   \<not> gateOpen (atGate (- 13)) \<and>
   tryOpenGate (atGate (- 13)) = Some (gateOpened (- 13)) \<and>
   gateOpen (gateOpened (- 13)) \<and> inventory (gateOpened (- 13)) = [None, None, None] \<and>
   currentLevel (falling 2) = 1 \<and> \<not> list_ex isKey (inventory (falling 2)) \<and>
   tryOpenGate (falling 2) = Some (falling 2) \<and>
   currentLevel (temple (- 13)) = 2 \<and> \<not> puzzleSolved (temple (- 13)) \<and>
   tryOpenGate (temple (- 13)) = Some (temple (- 13)) \<and>
   (\<exists>s'. tryOpenGate ((temple (- 13))\<lparr>puzzleSolved := True\<rparr>) = Some s' \<and>
         gateOpen s' \<and> puzzleSolved s') \<and>
   currentLevel lair = 3 \<and> tryOpenGate lair = Some lair"
proof -
  have a: "currentLevel (atGate (- 13)) = 1" "list_ex isKey (inventory (atGate (- 13)))"
    "\<not> gateOpen (atGate (- 13))"
    by (simp_all add: atGate_fields isKey_def crystalKey_def)
  have b: "gateOpen (gateOpened (- 13))" "inventory (gateOpened (- 13)) = [None, None, None]"
    by (simp_all add: gateOpened_def)
  have c: "currentLevel (temple (- 13)) = 2" "\<not> puzzleSolved (temple (- 13))"
    by (simp_all add: temple_fields)
  have d: "currentLevel lair = 3" by (simp add: lair_def loadLevel_frame)
  have k: "currentLevel (falling 2) = 1" "\<not> list_ex isKey (inventory (falling 2))"
    by (simp_all add: falling_def loadLevel_frame, simp_all add: constructor_def isKey_def)
  from tryOpenGate_levels[of "falling 2"] k
  have n: "tryOpenGate (falling 2) = Some (falling 2)" by auto
  from tryOpenGate_levels[of "temple (- 13)"] c
  have e: "tryOpenGate (temple (- 13)) = Some (temple (- 13))" by auto
  from tryOpenGate_levels[of "(temple (- 13))\<lparr>puzzleSolved := True\<rparr>"] c
  have f: "\<exists>s'. tryOpenGate ((temple (- 13))\<lparr>puzzleSolved := True\<rparr>) = Some s' \<and>
         gateOpen s' \<and> puzzleSolved s'" by auto
  from tryOpenGate_levels[of lair] d
  have g: "tryOpenGate lair = Some lair" by auto
  from tryOpenGate_levels[of "atGate (- 13)"] a
  have h: "\<exists>s'. tryOpenGate (atGate (- 13)) = Some s' \<and> gateOpen s'" by auto
  from a b c d e f g h k n tryOpenGate_atGate[of "- 13"] show ?thesis by simp
qed

subsection \<open>The boss\<close>

text \<open>
  C6. In a frame of \<open>updateBoss\<close> with a living boss on level 3, the boss attacks (the
  player loses health to the ground slam, or three ice shards are added) exactly when
  more time than the cooldown has passed since its last attack, where the cooldown is 2
  when \<open>bossHealth / bossMaxHealth > 0.5\<close> and 1 otherwise; at exactly half of the
  health the cooldown is 1.
\<close>

theorem boss_attack_cooldown:
  assumes "boss s = Some b" and "currentLevel s = 3" and "player s = Some p"
    and "0 < bossHealth s" and "0 < bossMaxHealth s"
  shows "\<exists>s'. updateBoss delta now s = Some s' \<and>
     ((health s' \<noteq> health s \<or> projectiles s' \<noteq> projectiles s) =
        ((if real_of_int (bossHealth s) / real_of_int (bossMaxHealth s) > 0.5 then 2 else 1)
           < now - (case blastAttack b of None \<Rightarrow> 0 | Some t \<Rightarrow> t))) \<and>
     (2 * bossHealth s = bossMaxHealth s \<longrightarrow>
        (health s' \<noteq> health s \<or> projectiles s' \<noteq> projectiles s) =
          (1 < now - (case blastAttack b of None \<Rightarrow> 0 | Some t \<Rightarrow> t)))"
proof -
  have half: "2 * bossHealth s = bossMaxHealth s \<Longrightarrow>
      \<not> real_of_int (bossHealth s) / real_of_int (bossMaxHealth s) > 0.5"
  proof -
    assume h: "2 * bossHealth s = bossMaxHealth s"
    have "real_of_int (bossMaxHealth s) = 2 * real_of_int (bossHealth s)"
      using h by (metis of_int_mult of_int_numeral)
    then show ?thesis using assms(4) by simp
  qed
  show ?thesis
    using assms half
    by (auto simp: updateBoss_def bossGroundSlam_def bossIceAttack_def takeDamage_def
        gameOver_def Let_def split: option.splits)
qed

text \<open>
  Witness: the boss at exactly half of its health, last attack at time 0. At time 1.5 it
  attacks (only the cooldown of 1 allows that); at time 0.5 it does not.
\<close>

theorem boss_attack_cooldown_witness:
  "boss lair = Some \<lparr>bposition = vec 0 1 (- 10), blastAttack = None\<rparr> \<and>
   currentLevel lair = 3 \<and> player lair = Some (vec 0 1 30) \<and>
   0 < bossHealth lair \<and> 0 < bossMaxHealth lair \<and> 2 * bossHealth lair = bossMaxHealth lair \<and>
   (\<exists>s'. updateBoss 0.016 1.5 lair = Some s' \<and>
         (health s' \<noteq> health lair \<or> projectiles s' \<noteq> projectiles lair)) \<and>
   (\<exists>s'. updateBoss 0.016 0.5 lair = Some s' \<and>
         health s' = health lair \<and> projectiles s' = projectiles lair)"
proof -
  note f = lair_fields
  have h: "0 < bossHealth lair" "0 < bossMaxHealth lair" by (simp_all add: f)
  from boss_attack_cooldown[OF f(1) f(2) f(3) h, of "0.016" "1.5"]
  have a: "\<exists>s'. updateBoss 0.016 1.5 lair = Some s' \<and>
         (health s' \<noteq> health lair \<or> projectiles s' \<noteq> projectiles lair)"
    by (auto simp: f)
  from boss_attack_cooldown[OF f(1) f(2) f(3) h, of "0.016" "0.5"]
  have b: "\<exists>s'. updateBoss 0.016 0.5 lair = Some s' \<and>
         health s' = health lair \<and> projectiles s' = projectiles lair"
    by (auto simp: f)
  from a b show ?thesis by (simp add: f)
qed

subsection \<open>The collision pass\<close>

lemma platformLoop_first:
  "(\<forall>q\<in>set xs. checkPlatformCollision q s = Some (False, s)) \<Longrightarrow>
     platformLoop (xs @ zs) s = platformLoop zs s"
  by (induction xs) auto

lemma falling_fields:
  "player (falling y) = Some (vec 5 y (- 10))"
  "playerVelocity (falling y) = vec 0 (- 1) 0"
  by (simp_all add: falling_def)

lemma falling_platforms:
  "platforms (falling y) =
     \<lparr>pposition = vec 0 0 0, isGround = True, isArena = False, pbounds = None\<rparr> # ledge #
     drop 2 (platforms (falling y))"
  by (simp add: falling_def ledge_def loadLevel_def clearLevel_def create_defs Let_def)

lemma ledge_check:
  "checkPlatformCollision ledge (falling y) =
     (if 1.25 < y \<and> y < 2.75 then Some (True, land 2.75 (vec 5 y (- 10)) (falling y))
      else Some (False, falling y))"
  by (simp add: checkPlatformCollision_def ledge_def falling_fields Let_def vec_def)

text \<open>
  C7, as amended. In the platform loop of \<open>updatePlayer\<close> the first platform in
  registration order whose test passes resolves the landing, and no later platform is
  consulted; when no test passes nothing changes. For a box platform the test is: the
  player's x and z strictly within half the width and half the depth of the centre, the
  player's y strictly between \<open>top - 0.5\<close> and \<open>top + 1\<close>, and a negative vertical
  velocity; on success y becomes \<open>top + 1\<close>, the vertical velocity 0 and
  \<open>playerOnGround\<close> true.
\<close>

theorem platform_collision_pass:
  assumes "player s = Some p"
  shows "((\<forall>q\<in>set xs. checkPlatformCollision q s = Some (False, s)) \<longrightarrow>
            checkPlatformCollision pl s = Some (True, t) \<longrightarrow>
            platformLoop (xs @ pl # ys) s = Some t) \<and>
         ((\<forall>q\<in>set xs. checkPlatformCollision q s = Some (False, s)) \<longrightarrow>
            platformLoop xs s = Some s) \<and>
         (\<not> isGround pl \<longrightarrow> \<not> isArena pl \<longrightarrow> pbounds pl = Some b \<longrightarrow>
            checkPlatformCollision pl s =
              (if vx (pposition pl) - width b / 2 < vx p \<and> vx p < vx (pposition pl) + width b / 2 \<and>
                  vz (pposition pl) - depth b / 2 < vz p \<and> vz p < vz (pposition pl) + depth b / 2 \<and>
                  vy (pposition pl) + height b / 2 - 0.5 < vy p \<and>
                  vy p < vy (pposition pl) + height b / 2 + 1 \<and>
                  vy (playerVelocity s) < 0
               then Some (True, land (vy (pposition pl) + height b / 2 + 1) p s)
               else Some (False, s))) \<and>
         player (land y p s) = Some (p\<lparr>vy := y\<rparr>) \<and>
         vy (playerVelocity (land y p s)) = 0 \<and>
         playerOnGround (land y p s)"
proof -
  have a: "(\<forall>q\<in>set xs. checkPlatformCollision q s = Some (False, s)) \<longrightarrow>
            checkPlatformCollision pl s = Some (True, t) \<longrightarrow>
            platformLoop (xs @ pl # ys) s = Some t"
    by (simp add: platformLoop_first)
  have b: "(\<forall>q\<in>set xs. checkPlatformCollision q s = Some (False, s)) \<longrightarrow>
            platformLoop xs s = Some s"
    using platformLoop_first[of xs s "[]"] by simp
  have c: "\<not> isGround pl \<longrightarrow> \<not> isArena pl \<longrightarrow> pbounds pl = Some b \<longrightarrow>
            checkPlatformCollision pl s =
              (if vx (pposition pl) - width b / 2 < vx p \<and> vx p < vx (pposition pl) + width b / 2 \<and>
                  vz (pposition pl) - depth b / 2 < vz p \<and> vz p < vz (pposition pl) + depth b / 2 \<and>
                  vy (pposition pl) + height b / 2 - 0.5 < vy p \<and>
                  vy p < vy (pposition pl) + height b / 2 + 1 \<and>
                  vy (playerVelocity s) < 0
               then Some (True, land (vy (pposition pl) + height b / 2 + 1) p s)
               else Some (False, s))"
    using assms by (auto simp: checkPlatformCollision_def Let_def)
  have d: "player (land y p s) = Some (p\<lparr>vy := y\<rparr>) \<and>
         vy (playerVelocity (land y p s)) = 0 \<and> playerOnGround (land y p s)"
    by (simp add: land_def)
  from a b c d show ?thesis by blast
qed

text \<open>
  Witness: over the first ice platform of level 1 at height 2, moving down. The ground
  mesh is registered first and catches nothing; the platform passes the box test and puts
  the player at 2.75, and the platforms registered after it play no part.
\<close>

theorem platform_collision_pass_witness:
  "player (falling 2) = Some (vec 5 2 (- 10)) \<and>
   checkPlatformCollision (hd (platforms (falling 2))) (falling 2) = Some (False, falling 2) \<and>
   platformLoop [hd (platforms (falling 2))] (falling 2) = Some (falling 2) \<and>
   \<not> isGround ledge \<and> \<not> isArena ledge \<and>
   pbounds ledge = Some \<lparr>width = 4, height = 0.5, depth = 4\<rparr> \<and>
   checkPlatformCollision ledge (falling 2) = Some (True, land 2.75 (vec 5 2 (- 10)) (falling 2)) \<and>
   platformLoop (platforms (falling 2)) (falling 2) = Some (land 2.75 (vec 5 2 (- 10)) (falling 2)) \<and>
   player (land 2.75 (vec 5 2 (- 10)) (falling 2)) = Some (vec 5 2.75 (- 10)) \<and>
   vy (playerVelocity (land 2.75 (vec 5 2 (- 10)) (falling 2))) = 0 \<and>
   playerOnGround (land 2.75 (vec 5 2 (- 10)) (falling 2))"
proof -
  let ?g = "\<lparr>pposition = vec 0 0 0, isGround = True, isArena = False, pbounds = None\<rparr>"
  let ?t = "land 2.75 (vec 5 2 (- 10)) (falling 2)"
  let ?b = "\<lparr>width = 4, height = 0.5, depth = 4\<rparr> :: bounds"
  have p: "player (falling 2) = Some (vec 5 2 (- 10))" by (simp add: falling_fields)
  have g: "checkPlatformCollision ?g (falling 2) = Some (False, falling 2)"
    by (simp add: checkPlatformCollision_def)
  have lb: "\<not> isGround ledge" "\<not> isArena ledge" "pbounds ledge = Some ?b"
    by (simp_all add: ledge_def)
  note th = platform_collision_pass[OF p, of "[?g]" ledge ?t "drop 2 (platforms (falling 2))" ?b]
  from th lb have l: "checkPlatformCollision ledge (falling 2) = Some (True, ?t)"
    by (simp add: ledge_def falling_fields vec_def)
  have pl: "platforms (falling 2) = [?g] @ ledge # drop 2 (platforms (falling 2))"
    using falling_platforms[of 2] by simp
  from th g l
  have "platformLoop ([?g] @ ledge # drop 2 (platforms (falling 2))) (falling 2) = Some ?t"
    by simp
  with pl have r: "platformLoop (platforms (falling 2)) (falling 2) = Some ?t" by simp
  from th g have n: "platformLoop [?g] (falling 2) = Some (falling 2)" by simp
  have h: "hd (platforms (falling 2)) = ?g" by (subst pl) simp
  from p g l r h n lb show ?thesis by (simp add: land_def vec_def)
qed

text \<open>
  Counterexample to C7 as stated (the band closed at \<open>top - 0.5\<close>): over the first ice
  platform of level 1 (top at 1.75) a player at height exactly 1.25, moving down, is not
  caught.
\<close>

theorem band_lower_edge_counterexample:
  "player (falling 1.25) = Some (vec 5 1.25 (- 10)) \<and>
   vy (playerVelocity (falling 1.25)) < 0 \<and>
   platforms (falling 1.25) ! 1 = ledge \<and>
   pbounds ledge = Some \<lparr>width = 4, height = 0.5, depth = 4\<rparr> \<and>
   vy (pposition ledge) + 0.5 / 2 - 0.5 = (1.25 :: real) \<and>
   checkPlatformCollision ledge (falling 1.25) = Some (False, falling 1.25)"
proof -
  have "platforms (falling 1.25) ! 1 = ledge"
    by (subst falling_platforms) simp
  then show ?thesis
    by (simp add: falling_fields ledge_check, simp add: ledge_def vec_def)
qed

subsection \<open>Projectile hits\<close>

lemma hitEnemy_miss: "\<not> snd (hitEnemy pos d es) \<Longrightarrow> fst (hitEnemy pos d es) = es"
  by (induction es) (auto simp: split_beta)

lemma hitEnemy_first:
  "snd (hitEnemy pos d es) \<Longrightarrow>
   \<exists>k<length es. distanceTo pos (eposition (es ! k)) < 1.5 \<and>
      (\<forall>j<k. \<not> distanceTo pos (eposition (es ! j)) < 1.5) \<and>
      fst (hitEnemy pos d es) = es[k := (es ! k)\<lparr>ehealth := ehealth (es ! k) - d\<rparr>]"
proof (induction es)
  case Nil then show ?case by simp
next
  case (Cons e es)
  show ?case
  proof (cases "distanceTo pos (eposition e) < 1.5")
    case True
    then have "distanceTo pos (eposition ((e # es) ! 0)) < 1.5 \<and>
      (\<forall>j<0. \<not> distanceTo pos (eposition ((e # es) ! j)) < 1.5) \<and>
      fst (hitEnemy pos d (e # es)) = (e # es)[0 := ((e # es) ! 0)\<lparr>ehealth := ehealth ((e # es) ! 0) - d\<rparr>]"
      by simp
    then show ?thesis by blast
  next
    case False
    with Cons.prems have "snd (hitEnemy pos d es)" by (simp add: split_beta)
    from Cons.IH[OF this] obtain k where k: "k < length es"
      "distanceTo pos (eposition (es ! k)) < 1.5"
      "\<forall>j<k. \<not> distanceTo pos (eposition (es ! j)) < 1.5"
      "fst (hitEnemy pos d es) = es[k := (es ! k)\<lparr>ehealth := ehealth (es ! k) - d\<rparr>]"
      by blast
    have "\<forall>j<Suc k. \<not> distanceTo pos (eposition ((e # es) ! j)) < 1.5"
    proof (intro allI impI)
      fix j assume "j < Suc k"
      then show "\<not> distanceTo pos (eposition ((e # es) ! j)) < 1.5"
        using False k(3) by (cases j) simp_all
    qed
    with k False have "Suc k < length (e # es) \<and>
      distanceTo pos (eposition ((e # es) ! Suc k)) < 1.5 \<and>
      (\<forall>j<Suc k. \<not> distanceTo pos (eposition ((e # es) ! j)) < 1.5) \<and>
      fst (hitEnemy pos d (e # es)) =
        (e # es)[Suc k := ((e # es) ! Suc k)\<lparr>ehealth := ehealth ((e # es) ! Suc k) - d\<rparr>]"
      by (simp add: split_beta)
    then show ?thesis by blast
  qed
qed

lemma projectileStep_expired:
  assumes "i < length (projectiles s)"
    and "pr = (projectiles s ! i)
           \<lparr>prposition := addv (prposition (projectiles s ! i))
                             (multiplyScalar (velocity (projectiles s ! i)) delta)\<rparr>"
    and "now - spawnTime pr > lifetime pr"
  shows "projectileStep delta now i s =
           Some (s\<lparr>projectiles := splice1 i ((projectiles s)[i := pr])\<rparr>)"
  using assms by (simp add: projectileStep_def Let_def)

lemma projectileStep_hits_enemy:
  assumes "i < length (projectiles s)"
    and "pr = (projectiles s ! i)
           \<lparr>prposition := addv (prposition (projectiles s ! i))
                             (multiplyScalar (velocity (projectiles s ! i)) delta)\<rparr>"
    and "\<not> now - spawnTime pr > lifetime pr"
    and "isPlayerProjectile pr" and "\<not> isEnemyProjectile pr"
    and "snd (hitEnemy (prposition pr) (damage pr) (enemies s))"
    and "boss s = None"
  shows "projectileStep delta now i s =
           Some (s\<lparr>enemies := fst (hitEnemy (prposition pr) (damage pr) (enemies s)),
                   projectiles := splice1 i ((projectiles s)[i := pr])\<rparr>)"
  using assms by (simp add: projectileStep_def Let_def split_beta)

lemma projectileStep_hits_boss:
  assumes "i < length (projectiles s)"
    and "pr = (projectiles s ! i)
           \<lparr>prposition := addv (prposition (projectiles s ! i))
                             (multiplyScalar (velocity (projectiles s ! i)) delta)\<rparr>"
    and "\<not> now - spawnTime pr > lifetime pr"
    and "isPlayerProjectile pr" and "\<not> isEnemyProjectile pr"
    and "enemies s = []"
    and "boss s = Some b" and "distanceTo (prposition pr) (bposition b) < 3"
  shows "projectileStep delta now i s =
           Some (s\<lparr>bossHealth := bossHealth s - damage pr,
                   projectiles := splice1 i ((projectiles s)[i := pr])\<rparr>)"
  using assms by (simp add: projectileStep_def Let_def)

lemma projectileStep_hits_player:
  assumes "i < length (projectiles s)"
    and "pr = (projectiles s ! i)
           \<lparr>prposition := addv (prposition (projectiles s ! i))
                             (multiplyScalar (velocity (projectiles s ! i)) delta)\<rparr>"
    and "\<not> now - spawnTime pr > lifetime pr"
    and "\<not> isPlayerProjectile pr" and "isEnemyProjectile pr"
    and "player s = Some p" and "distanceTo (prposition pr) p < 1"
  shows "projectileStep delta now i s =
           Some ((takeDamage (damage pr) s)
                   \<lparr>projectiles := splice1 i ((projectiles s)[i := pr])\<rparr>)"
  using assms by (simp add: projectileStep_def takeDamage_def gameOver_def Let_def)

lemma projectileStep_no_hit:
  assumes "i < length (projectiles s)"
    and "pr = (projectiles s ! i)
           \<lparr>prposition := addv (prposition (projectiles s ! i))
                             (multiplyScalar (velocity (projectiles s ! i)) delta)\<rparr>"
    and "\<not> now - spawnTime pr > lifetime pr"
    and "player s = Some p"
    and "\<not> (isPlayerProjectile pr \<and> snd (hitEnemy (prposition pr) (damage pr) (enemies s)))"
    and "\<not> (isPlayerProjectile pr \<and>
            (case boss s of None \<Rightarrow> False
             | Some b \<Rightarrow> distanceTo (prposition pr) (bposition b) < 3))"
    and "\<not> (isEnemyProjectile pr \<and> distanceTo (prposition pr) p < 1)"
  shows "projectileStep delta now i s = Some (s\<lparr>projectiles := (projectiles s)[i := pr]\<rparr>)"
proof (cases "isPlayerProjectile pr")
  case False
  with assms show ?thesis
    by (cases "isEnemyProjectile pr") (simp_all add: projectileStep_def Let_def)
next
  case True
  with assms(5) have h: "\<not> snd (hitEnemy (prposition pr) (damage pr) (enemies s))" by simp
  show ?thesis
  proof (cases "boss s")
    case None
    with assms(1-4,7) True h show ?thesis
      by (cases "isEnemyProjectile pr") (simp_all add: projectileStep_def Let_def split_beta)
  next
    case (Some b)
    with assms(6) True have "\<not> distanceTo (prposition pr) (bposition b) < 3" by simp
    with assms(1-4,7) True h Some show ?thesis
      by (cases "isEnemyProjectile pr") (simp_all add: projectileStep_def Let_def split_beta)
  qed
qed

lemma length_splice1: "i < length xs \<Longrightarrow> Suc (length (splice1 i xs)) = length xs"
  by (simp add: splice1_def)

text \<open>
  The loop body has no \<open>continue\<close> after a hit: that a projectile which matched an enemy
  is not tested against the boss rests on \<open>hitInv\<close>, that is on the level data. In a
  state with an enemy and the boss both in range, which no run reaches, the enemy and the
  boss are both damaged and \<open>splice(i, 1)\<close> runs twice.
\<close>

lemma projectileStep_hits_both:
  assumes "i < length (projectiles s)"
    and "pr = (projectiles s ! i)
           \<lparr>prposition := addv (prposition (projectiles s ! i))
                             (multiplyScalar (velocity (projectiles s ! i)) delta)\<rparr>"
    and "\<not> now - spawnTime pr > lifetime pr"
    and "isPlayerProjectile pr" and "\<not> isEnemyProjectile pr"
    and "hitEnemy (prposition pr) (damage pr) (enemies s) = (es, True)"
    and "boss s = Some b" and "distanceTo (prposition pr) (bposition b) < 3"
  shows "projectileStep delta now i s =
           Some (s\<lparr>projectiles := splice1 i (splice1 i ((projectiles s)[i := pr])),
                   enemies := es, bossHealth := bossHealth s - damage pr\<rparr>)"
  using assms by (simp add: projectileStep_def Let_def)

lemma projectileStep_resolved:
  assumes inv: "hitInv s" and i: "i < length (projectiles s)" and pl: "player s = Some p"
    and d_proj: "proj = (projectiles s ! i)
                \<lparr>prposition := addv (prposition (projectiles s ! i))
                                  (multiplyScalar (velocity (projectiles s ! i)) delta)\<rparr>"
    and d_ps: "ps = (projectiles s)[i := proj]"
    and d_expired: "expired = (now - spawnTime proj > lifetime proj)"
    and d_enemyHit: "enemyHit = (isPlayerProjectile proj \<and>
                    snd (hitEnemy (prposition proj) (damage proj) (enemies s)))"
    and d_bossHit: "bossHit = (isPlayerProjectile proj \<and>
                   (case boss s of None \<Rightarrow> False
                    | Some b \<Rightarrow> distanceTo (prposition proj) (bposition b) < 3))"
    and d_playerHit: "playerHit = (isEnemyProjectile proj \<and> distanceTo (prposition proj) p < 1)"
  shows
    "\<exists>s'. projectileStep delta now i s = Some s' \<and> hitInv s' \<and>
       (projectiles s' = ps \<or> projectiles s' = splice1 i ps) \<and>
       Suc (length (splice1 i ps)) = length (projectiles s) \<and>
       (expired \<longrightarrow> s' = s\<lparr>projectiles := splice1 i ps\<rparr>) \<and>
       (\<not> expired \<longrightarrow>
          \<not> (enemyHit \<and> bossHit) \<and> \<not> (enemyHit \<and> playerHit) \<and>
          \<not> (bossHit \<and> playerHit) \<and>
          (enemyHit \<longrightarrow>
             boss s = None \<and>
             (\<exists>k<length (enemies s).
                distanceTo (prposition proj) (eposition (enemies s ! k)) < 1.5 \<and>
                (\<forall>j<k. \<not> distanceTo (prposition proj) (eposition (enemies s ! j)) < 1.5) \<and>
                s' = s\<lparr>enemies := (enemies s)
                            [k := (enemies s ! k)
                               \<lparr>ehealth := ehealth (enemies s ! k) - damage proj\<rparr>],
                          projectiles := splice1 i ps\<rparr>)) \<and>
          (bossHit \<longrightarrow>
             s' = s\<lparr>bossHealth := bossHealth s - damage proj,
                       projectiles := splice1 i ps\<rparr>) \<and>
          (playerHit \<longrightarrow>
             s' = (takeDamage (damage proj) s)\<lparr>projectiles := splice1 i ps\<rparr>) \<and>
          (\<not> enemyHit \<and> \<not> bossHit \<and> \<not> playerHit \<longrightarrow>
             s' = s\<lparr>projectiles := ps\<rparr>))"
proof -
  have oo: "\<not> (isPlayerProjectile proj \<and> isEnemyProjectile proj)"
    using inv i oneOwner_nth[of "projectiles s" i]
    by (simp add: hitInv_def d_proj oneOwner_def)
  have be: "boss s = None \<or> enemies s = []" using inv by (simp add: hitInv_def)
  have len: "Suc (length (splice1 i ps)) = length (projectiles s)"
    using i by (simp add: d_ps length_splice1)
  have eb: "enemyHit \<Longrightarrow> boss s = None" using be by (auto simp: d_enemyHit)
  have X: "expired \<Longrightarrow>
      projectileStep delta now i s = Some (s\<lparr>projectiles := splice1 i ps\<rparr>)"
    using projectileStep_expired[OF i d_proj] by (simp add: d_expired d_ps)
  have E: "\<not> expired \<Longrightarrow> enemyHit \<Longrightarrow>
      projectileStep delta now i s =
        Some (s\<lparr>enemies := fst (hitEnemy (prposition proj) (damage proj) (enemies s)),
                projectiles := splice1 i ps\<rparr>)"
    using projectileStep_hits_enemy[OF i d_proj] oo eb by (simp add: d_expired d_enemyHit d_ps)
  have B: "\<not> expired \<Longrightarrow> bossHit \<Longrightarrow>
      projectileStep delta now i s =
        Some (s\<lparr>bossHealth := bossHealth s - damage proj, projectiles := splice1 i ps\<rparr>)"
  proof -
    assume a: "\<not> expired" "bossHit"
    from a(2) obtain b where b: "boss s = Some b" "distanceTo (prposition proj) (bposition b) < 3"
      "isPlayerProjectile proj"
      by (auto simp: d_bossHit split: option.splits)
    with be oo have "enemies s = []" "\<not> isEnemyProjectile proj" by auto
    with projectileStep_hits_boss[OF i d_proj _ b(3) _ _ b(1) b(2)] a(1)
    show ?thesis by (simp add: d_expired d_ps)
  qed
  have P: "\<not> expired \<Longrightarrow> playerHit \<Longrightarrow>
      projectileStep delta now i s =
        Some ((takeDamage (damage proj) s)\<lparr>projectiles := splice1 i ps\<rparr>)"
    using projectileStep_hits_player[OF i d_proj _ _ _ pl] oo
    by (simp add: d_expired d_playerHit d_ps)
  have N: "\<not> expired \<Longrightarrow> \<not> enemyHit \<Longrightarrow> \<not> bossHit \<Longrightarrow> \<not> playerHit \<Longrightarrow>
      projectileStep delta now i s = Some (s\<lparr>projectiles := ps\<rparr>)"
    using projectileStep_no_hit[OF i d_proj _ pl]
    by (simp add: d_expired d_enemyHit d_bossHit d_playerHit d_ps)
  have x1: "\<not> (enemyHit \<and> bossHit)" using eb by (auto simp: d_bossHit)
  have x2: "\<not> (enemyHit \<and> playerHit)" using oo by (auto simp: d_enemyHit d_playerHit)
  have x3: "\<not> (bossHit \<and> playerHit)" using oo by (auto simp: d_bossHit d_playerHit)
  from X E B P N obtain s' where eq: "projectileStep delta now i s = Some s'" by blast
  have hs: "hitInv s'" by (rule projectileStep_hitInv[OF eq inv])
  have X': "expired \<longrightarrow> s' = s\<lparr>projectiles := splice1 i ps\<rparr>" using X eq by simp
  have E0: "\<not> expired \<Longrightarrow> enemyHit \<Longrightarrow>
      s' = s\<lparr>enemies := fst (hitEnemy (prposition proj) (damage proj) (enemies s)),
               projectiles := splice1 i ps\<rparr>" using E eq by simp
  have B': "\<not> expired \<Longrightarrow> bossHit \<Longrightarrow>
      s' = s\<lparr>bossHealth := bossHealth s - damage proj, projectiles := splice1 i ps\<rparr>"
    using B eq by simp
  have P': "\<not> expired \<Longrightarrow> playerHit \<Longrightarrow>
      s' = (takeDamage (damage proj) s)\<lparr>projectiles := splice1 i ps\<rparr>" using P eq by simp
  have N': "\<not> expired \<Longrightarrow> \<not> enemyHit \<and> \<not> bossHit \<and> \<not> playerHit \<Longrightarrow>
      s' = s\<lparr>projectiles := ps\<rparr>" using N eq by simp
  have E': "\<not> expired \<Longrightarrow> enemyHit \<Longrightarrow>
      \<exists>k<length (enemies s).
         distanceTo (prposition proj) (eposition (enemies s ! k)) < 1.5 \<and>
         (\<forall>j<k. \<not> distanceTo (prposition proj) (eposition (enemies s ! j)) < 1.5) \<and>
         s' = s\<lparr>enemies := (enemies s)
                     [k := (enemies s ! k)
                        \<lparr>ehealth := ehealth (enemies s ! k) - damage proj\<rparr>],
                   projectiles := splice1 i ps\<rparr>"
  proof -
    assume a: "\<not> expired" "enemyHit"
    from a(2) have "snd (hitEnemy (prposition proj) (damage proj) (enemies s))"
      by (simp add: d_enemyHit)
    from hitEnemy_first[OF this] obtain k where k: "k < length (enemies s)"
      "distanceTo (prposition proj) (eposition (enemies s ! k)) < 1.5"
      "\<forall>j<k. \<not> distanceTo (prposition proj) (eposition (enemies s ! j)) < 1.5"
      "fst (hitEnemy (prposition proj) (damage proj) (enemies s)) =
         (enemies s)[k := (enemies s ! k)\<lparr>ehealth := ehealth (enemies s ! k) - damage proj\<rparr>]"
      by blast
    from E0[OF a] k(4) have "s' = s\<lparr>enemies := (enemies s)
                     [k := (enemies s ! k)
                        \<lparr>ehealth := ehealth (enemies s ! k) - damage proj\<rparr>],
                   projectiles := splice1 i ps\<rparr>" by simp
    with k(1-3) show ?thesis by blast
  qed
  have c3: "projectiles s' = ps \<or> projectiles s' = splice1 i ps"
  proof (cases expired)
    case True with X' show ?thesis by simp
  next
    case ne: False
    show ?thesis
    proof (cases enemyHit)
      case True from E0[OF ne True] show ?thesis by simp
    next
      case e: False
      show ?thesis
      proof (cases bossHit)
        case True from B'[OF ne True] show ?thesis by simp
      next
        case b: False
        show ?thesis
        proof (cases playerHit)
          case True from P'[OF ne True] show ?thesis by simp
        next
          case False with N'[OF ne] e b show ?thesis by simp
        qed
      qed
    qed
  qed
  have big: "\<not> expired \<longrightarrow>
     \<not> (enemyHit \<and> bossHit) \<and> \<not> (enemyHit \<and> playerHit) \<and>
     \<not> (bossHit \<and> playerHit) \<and>
     (enemyHit \<longrightarrow>
        boss s = None \<and>
        (\<exists>k<length (enemies s).
           distanceTo (prposition proj) (eposition (enemies s ! k)) < 1.5 \<and>
           (\<forall>j<k. \<not> distanceTo (prposition proj) (eposition (enemies s ! j)) < 1.5) \<and>
           s' = s\<lparr>enemies := (enemies s)
                       [k := (enemies s ! k)
                          \<lparr>ehealth := ehealth (enemies s ! k) - damage proj\<rparr>],
                     projectiles := splice1 i ps\<rparr>)) \<and>
     (bossHit \<longrightarrow>
        s' = s\<lparr>bossHealth := bossHealth s - damage proj,
                  projectiles := splice1 i ps\<rparr>) \<and>
     (playerHit \<longrightarrow>
        s' = (takeDamage (damage proj) s)\<lparr>projectiles := splice1 i ps\<rparr>) \<and>
     (\<not> enemyHit \<and> \<not> bossHit \<and> \<not> playerHit \<longrightarrow>
        s' = s\<lparr>projectiles := ps\<rparr>)"
    using x1 x2 x3 eb E' B' P' N' by (intro impI conjI) assumption+
  show ?thesis
    by (rule exI[of _ s']) (intro conjI eq hs c3 len X' big)
qed

text \<open>
  C1. Every state that a run of events reaches from the constructor satisfies \<open>hitInv\<close>
  (the level has enemies or a boss, never both, and no projectile carries both owner
  flags), and \<open>hitInv\<close> is kept by \<open>updatePlayer\<close>, \<open>updateEnemies\<close> and \<open>updateBoss\<close> of a
  frame and by every iteration of the loop of \<open>updateProjectiles\<close>: it holds whenever
  the loop body runs. There, with a player in the scene, the body for projectile \<open>i\<close>
  returns, and of the projectile list it removes at most the projectile \<open>i\<close>, once. On
  lifetime expiry (\<open>now - spawnTime > lifetime\<close>) the projectile is removed and nothing
  else changes. Otherwise at most one of the three hit tests succeeds: an enemy match
  (the first enemy in list order closer than 1.5 loses the damage, and there is no boss
  then, so that \<open>this.boss && ...\<close> stops before the distance test), a boss match (closer
  than 3), or for an enemy projectile a player match (closer than 1). The projectile is
  removed exactly when one of them succeeds, and only that target is damaged.
\<close>

theorem projectile_hits_one_target:
  "(run evs constructor = Some s0 \<longrightarrow> hitInv s0) \<and>
   (hitInv s0 \<and>
    updatePlayer delta (s0\<lparr>animationTime := animationTime s0 + delta\<rparr>) = Some s1 \<and>
    updateEnemies delta now s1 = Some s2 \<and> updateBoss delta now s2 = Some s3 \<longrightarrow>
      hitInv s3) \<and>
   (hitInv s \<and> i < length (projectiles s) \<and> player s = Some p \<longrightarrow>
     (let proj = (projectiles s ! i)
                \<lparr>prposition := addv (prposition (projectiles s ! i))
                                  (multiplyScalar (velocity (projectiles s ! i)) delta)\<rparr>;
          ps = (projectiles s)[i := proj];
          expired = (now - spawnTime proj > lifetime proj);
          enemyHit = (isPlayerProjectile proj \<and>
                    snd (hitEnemy (prposition proj) (damage proj) (enemies s)));
          bossHit = (isPlayerProjectile proj \<and>
                   (case boss s of None \<Rightarrow> False
                    | Some b \<Rightarrow> distanceTo (prposition proj) (bposition b) < 3));
          playerHit = (isEnemyProjectile proj \<and> distanceTo (prposition proj) p < 1)
      in
       \<exists>s'. projectileStep delta now i s = Some s' \<and> hitInv s' \<and>
         (projectiles s' = ps \<or> projectiles s' = splice1 i ps) \<and>
         Suc (length (splice1 i ps)) = length (projectiles s) \<and>
         (expired \<longrightarrow> s' = s\<lparr>projectiles := splice1 i ps\<rparr>) \<and>
         (\<not> expired \<longrightarrow>
            \<not> (enemyHit \<and> bossHit) \<and> \<not> (enemyHit \<and> playerHit) \<and>
            \<not> (bossHit \<and> playerHit) \<and>
            (enemyHit \<longrightarrow>
               boss s = None \<and>
               (\<exists>k<length (enemies s).
                  distanceTo (prposition proj) (eposition (enemies s ! k)) < 1.5 \<and>
                  (\<forall>j<k. \<not> distanceTo (prposition proj) (eposition (enemies s ! j)) < 1.5) \<and>
                  s' = s\<lparr>enemies := (enemies s)
                              [k := (enemies s ! k)
                                 \<lparr>ehealth := ehealth (enemies s ! k) - damage proj\<rparr>],
                            projectiles := splice1 i ps\<rparr>)) \<and>
            (bossHit \<longrightarrow>
               s' = s\<lparr>bossHealth := bossHealth s - damage proj,
                         projectiles := splice1 i ps\<rparr>) \<and>
            (playerHit \<longrightarrow>
               s' = (takeDamage (damage proj) s)\<lparr>projectiles := splice1 i ps\<rparr>) \<and>
            (\<not> enemyHit \<and> \<not> bossHit \<and> \<not> playerHit \<longrightarrow>
               s' = s\<lparr>projectiles := ps\<rparr>))))"
proof (intro conjI impI)
  assume "run evs constructor = Some s0"
  then show "hitInv s0" using hitInv_constructor by (rule run_hitInv)
next
  assume a: "hitInv s0 \<and>
    updatePlayer delta (s0\<lparr>animationTime := animationTime s0 + delta\<rparr>) = Some s1 \<and>
    updateEnemies delta now s1 = Some s2 \<and> updateBoss delta now s2 = Some s3"
  then have "hitInv (s0\<lparr>animationTime := animationTime s0 + delta\<rparr>)"
    by (simp add: hitInv_def)
  with a have "hitInv s1" by (blast intro: updatePlayer_hitInv)
  with a have "hitInv s2" by (blast intro: updateEnemies_hitInv)
  with a show "hitInv s3" by (blast intro: updateBoss_hitInv)
next
  assume a: "hitInv s \<and> i < length (projectiles s) \<and> player s = Some p"
  then have h: "hitInv s" "i < length (projectiles s)" "player s = Some p" by simp_all
  show "(let proj = (projectiles s ! i)
                 \<lparr>prposition := addv (prposition (projectiles s ! i))
                                   (multiplyScalar (velocity (projectiles s ! i)) delta)\<rparr>;
           ps = (projectiles s)[i := proj];
           expired = (now - spawnTime proj > lifetime proj);
           enemyHit = (isPlayerProjectile proj \<and>
                     snd (hitEnemy (prposition proj) (damage proj) (enemies s)));
           bossHit = (isPlayerProjectile proj \<and>
                    (case boss s of None \<Rightarrow> False
                     | Some b \<Rightarrow> distanceTo (prposition proj) (bposition b) < 3));
           playerHit = (isEnemyProjectile proj \<and> distanceTo (prposition proj) p < 1)
       in
        \<exists>s'. projectileStep delta now i s = Some s' \<and> hitInv s' \<and>
          (projectiles s' = ps \<or> projectiles s' = splice1 i ps) \<and>
          Suc (length (splice1 i ps)) = length (projectiles s) \<and>
          (expired \<longrightarrow> s' = s\<lparr>projectiles := splice1 i ps\<rparr>) \<and>
          (\<not> expired \<longrightarrow>
             \<not> (enemyHit \<and> bossHit) \<and> \<not> (enemyHit \<and> playerHit) \<and>
             \<not> (bossHit \<and> playerHit) \<and>
             (enemyHit \<longrightarrow>
                boss s = None \<and>
                (\<exists>k<length (enemies s).
                   distanceTo (prposition proj) (eposition (enemies s ! k)) < 1.5 \<and>
                   (\<forall>j<k. \<not> distanceTo (prposition proj) (eposition (enemies s ! j)) < 1.5) \<and>
                   s' = s\<lparr>enemies := (enemies s)
                               [k := (enemies s ! k)
                                  \<lparr>ehealth := ehealth (enemies s ! k) - damage proj\<rparr>],
                             projectiles := splice1 i ps\<rparr>)) \<and>
             (bossHit \<longrightarrow>
                s' = s\<lparr>bossHealth := bossHealth s - damage proj,
                          projectiles := splice1 i ps\<rparr>) \<and>
             (playerHit \<longrightarrow>
                s' = (takeDamage (damage proj) s)\<lparr>projectiles := splice1 i ps\<rparr>) \<and>
             (\<not> enemyHit \<and> \<not> bossHit \<and> \<not> playerHit \<longrightarrow>
                s' = s\<lparr>projectiles := ps\<rparr>)))"
    unfolding Let_def by (rule projectileStep_resolved[OF h refl refl refl refl refl refl])
qed

text \<open>
  Witness: \<open>firstShot\<close> is reached by a restart, pointer lock and one shot; the first
  three updates of a frame return on it and keep the invariant; its projectile flies on
  without a hit. In \<open>ambush\<close> the second projectile passes the last wolf at 0.5: that
  wolf alone loses 10, and that projectile alone is removed.
\<close>

theorem projectile_hits_one_target_witness:
  "run [ClickRestart, PointerLockChange True, MouseDown 0 1] constructor = Some firstShot \<and>
   hitInv firstShot \<and> player firstShot = Some (vec 0 1 0) \<and>
   (\<exists>s1 s2 s3.
      updatePlayer 0.01 (firstShot\<lparr>animationTime := animationTime firstShot + 0.01\<rparr>) = Some s1 \<and>
      updateEnemies 0.01 1.5 s1 = Some s2 \<and> updateBoss 0.01 1.5 s2 = Some s3 \<and> hitInv s3) \<and>
   projectileStep 0.01 1.5 0 firstShot =
     Some (firstShot\<lparr>projectiles :=
             [\<lparr>prposition = vec 0 2.5 (- 0.5), velocity = vec 0 0 (- 50),
               isPlayerProjectile = True, isEnemyProjectile = False,
               damage = 10, lifetime = 2, spawnTime = 1\<rparr>]\<rparr>) \<and>
   hitInv ambush \<and> player ambush = Some (vec 0 1 0) \<and>
   map ehealth (enemies ambush) = [30, 30, 30] \<and> length (projectiles ambush) = 2 \<and>
   (\<exists>s'. projectileStep 0.01 1.5 1 ambush = Some s' \<and>
         map ehealth (enemies s') = [30, 30, 20] \<and>
         projectiles s' = projectiles firstShot \<and>
         bossHealth s' = bossHealth ambush \<and> health s' = health ambush)"
proof -
  note f = firstShot_scene firstShot_fields(5)
  note g = ambush_fields
  have r: "run [ClickRestart, PointerLockChange True, MouseDown 0 1] constructor = Some firstShot"
    by (rule run_firstShot)
  from projectile_hits_one_target[where evs="[ClickRestart, PointerLockChange True, MouseDown 0 1]"
      and ?s0.0=firstShot, THEN conjunct1] r
  have hf: "hitInv firstShot" by blast
  have "player (firstShot\<lparr>animationTime := animationTime firstShot + 0.01\<rparr>) \<noteq> None"
    by (simp add: f)
  from updatePlayer_total[OF this, of "0.01"] obtain s1 where
    s1: "updatePlayer 0.01 (firstShot\<lparr>animationTime := animationTime firstShot + 0.01\<rparr>) = Some s1"
    "player s1 \<noteq> None" by blast
  from updateEnemies_total[OF s1(2), of "0.01" "1.5"] obtain s2 where
    s2: "updateEnemies 0.01 1.5 s1 = Some s2" "player s2 \<noteq> None" by blast
  from updateBoss_total[OF s2(2), of "0.01" "1.5"] obtain s3 where
    s3: "updateBoss 0.01 1.5 s2 = Some s3" by blast
  from projectile_hits_one_target[where ?s0.0=firstShot and delta="0.01" and now="1.5"
      and ?s1.0=s1 and ?s2.0=s2 and ?s3.0=s3, THEN conjunct2, THEN conjunct1] hf s1(1) s2(1) s3
  have "hitInv s3" by blast
  with s1(1) s2(1) s3 have b: "\<exists>s1 s2 s3.
      updatePlayer 0.01 (firstShot\<lparr>animationTime := animationTime firstShot + 0.01\<rparr>) = Some s1 \<and>
      updateEnemies 0.01 1.5 s1 = Some s2 \<and> updateBoss 0.01 1.5 s2 = Some s3 \<and> hitInv s3"
    by blast
  from projectile_hits_one_target[where s=firstShot and i=0 and p="vec 0 1 0" and delta="0.01"
      and now="1.5", THEN conjunct2, THEN conjunct2] hf
  have c: "projectileStep 0.01 1.5 0 firstShot =
     Some (firstShot\<lparr>projectiles :=
             [\<lparr>prposition = vec 0 2.5 (- 0.5), velocity = vec 0 0 (- 50),
               isPlayerProjectile = True, isEnemyProjectile = False,
               damage = 10, lifetime = 2, spawnTime = 1\<rparr>]\<rparr>)"
    by (auto simp: Let_def f addv_def multiplyScalar_def vec_def
        distanceTo_less_iff distanceTo_times_less_iff distanceToSquared_def)
  have ha: "hitInv ambush" by (simp add: hitInv_def oneOwner_def g f)
  from projectile_hits_one_target[where s=ambush and i=1 and p="vec 0 1 0" and delta="0.01"
      and now="1.5", THEN conjunct2, THEN conjunct2] ha
  have d: "\<exists>s'. projectileStep 0.01 1.5 1 ambush = Some s' \<and>
         map ehealth (enemies s') = [30, 30, 20] \<and>
         projectiles s' = projectiles firstShot \<and>
         bossHealth s' = bossHealth ambush \<and> health s' = health ambush"
    by (auto simp: Let_def g f addv_def multiplyScalar_def vec_def splice1_def less_Suc_eq
        distanceTo_less_iff distanceTo_times_less_iff distanceToSquared_def)
  from r hf b c ha d show ?thesis by (simp add: g f)
qed

subsection \<open>Level advancement\<close>

lemma nextLevel_kept_not: "currentLevel (nextLevel s) \<noteq> currentLevel s"
  by (simp add: nextLevel_level)

lemma startGame_level:
  assumes "startGame dt now s = Some s'"
  shows "currentLevel s' = 1"
proof -
  let ?l = "loadLevel 1 (resetPlayer (s\<lparr>state := PLAYING, currentLevel := 1\<rparr>))"
  have st: "state ?l = PLAYING" and lv: "currentLevel ?l = 1" and go: "\<not> gateOpen ?l"
    by (simp_all add: loadLevel_frame resetPlayer_def)
  from assms have "gameLoop dt now ?l = Some s'" by (simp add: startGame_def)
  from gameLoop_cases[OF this] st obtain s5 where
    c: "checkLevelCompletion s5 = Some s'" and k: "keeps ?l s5" by blast
  from k go lv have "\<not> gateOpen s5" "currentLevel s5 = 1" by (simp_all add: keeps_def)
  with checkLevelCompletion_cases[OF c] show ?thesis by auto
qed

lemma fire_level:
  assumes "fire k s = Some s'"
  shows "(currentLevel s' \<noteq> currentLevel s) = (k < length (pending s) \<and> pending s ! k = NextLevelTimer)"
    and "currentLevel s' = currentLevel s \<or> currentLevel s' = currentLevel s + 1"
proof -
  show "(currentLevel s' \<noteq> currentLevel s) = (k < length (pending s) \<and> pending s ! k = NextLevelTimer)"
  proof (cases "k < length (pending s)")
    case False with assms show ?thesis by (simp add: fire_def)
  next
    case True
    let ?t = "s\<lparr>pending := splice1 k (pending s)\<rparr>"
    from assms True have r: "runCallback (pending s ! k) ?t = Some s'" by (simp add: fire_def)
    show ?thesis
    proof (cases "pending s ! k")
      case NextLevelTimer
      with r have "s' = nextLevel ?t" by (simp add: runCallback_def)
      with NextLevelTimer True show ?thesis by (simp add: nextLevel_level)
    next
      case (GateAnimate y)
      with r have "animate y ?t = Some s'" by (simp add: runCallback_def)
      from animate_kept[OF this] GateAnimate show ?thesis by (simp add: kept_def)
    next
      case ClosePuzzleTimer
      with r show ?thesis by (auto simp: runCallback_def closePuzzle_def)
    qed
  qed
  then show "currentLevel s' = currentLevel s \<or> currentLevel s' = currentLevel s + 1"
    using assms by (auto simp: fire_def runCallback_def nextLevel_level split: if_splits)
qed

text \<open>
  C3, as amended. An event changes the level index exactly in these cases: a frame in
  the state \<open>PLAYING\<close> whose completion check finds an exit gate, \<open>gateOpen\<close> true and
  the player closer than 3 to the gate (after the frame's updates); the timer scheduled
  by \<open>openGateAnimation\<close> coming due, wherever the player stands; and a start or restart
  from a level other than 1.
\<close>

theorem level_advance_paths:
  assumes "step ev s = Some s'"
  shows "(currentLevel s' \<noteq> currentLevel s) =
           ((\<exists>dt now s5 g p. ev = Frame dt now \<and> state s = PLAYING \<and>
                updates (min dt 0.1) now (s\<lparr>animationTime := animationTime s + min dt 0.1\<rparr>)
                  = Some s5 \<and>
                exitGate s5 = Some g \<and> gateOpen s5 \<and> player s5 = Some p \<and> distanceTo p g < 3)
            \<or> (\<exists>k. ev = Fire k \<and> k < length (pending s) \<and> pending s ! k = NextLevelTimer)
            \<or> ((\<exists>dt now. ev = ClickStart dt now) \<or> ev = ClickRestart) \<and> currentLevel s \<noteq> 1)"
proof (cases ev)
  case (ClickStart dt now)
  with assms have "startGame dt now s = Some s'" by (simp add: step_def)
  from startGame_level[OF this] ClickStart show ?thesis by auto
next
  case ClickRestart
  with assms show ?thesis by (auto simp: step_def restartGame_def loadLevel_frame resetPlayer_def)
next
  case ClickPuzzleClose
  with assms show ?thesis by (auto simp: step_def closePuzzle_def)
next
  case PuzzleSolved
  with assms show ?thesis by (auto simp: step_def puzzleSolvedClick_def)
next
  case (KeyDown code)
  with assms onKeyDown_kept[of code s s'] show ?thesis by (auto simp: step_def kept_def)
next
  case (KeyUp code)
  with assms show ?thesis by (auto simp: step_def onKeyUp_def)
next
  case (MouseDown b now)
  with assms onMouseDown_kept[of b now s s'] show ?thesis by (auto simp: step_def kept_def)
next
  case (MouseUp b)
  with assms show ?thesis by (auto simp: step_def onMouseUp_def)
next
  case (MouseMove mx my)
  with assms show ?thesis by (auto simp: step_def onMouseMove_def Let_def)
next
  case (PointerLockChange l)
  with assms show ?thesis by (auto simp: step_def onPointerLockChange_def)
next
  case (Frame dt now)
  with assms have g: "gameLoop dt now s = Some s'" by (simp add: step_def)
  from gameLoop_cases[OF g] show ?thesis
  proof
    assume "state s \<noteq> PLAYING \<and> kept s s'"
    with Frame show ?thesis by (auto simp: kept_def)
  next
    assume "\<exists>s5. state s = PLAYING \<and>
           updates (min dt 0.1) now (s\<lparr>animationTime := animationTime s + min dt 0.1\<rparr>) = Some s5 \<and>
           checkLevelCompletion s5 = Some s' \<and> keeps s s5"
    then obtain s5 where st: "state s = PLAYING"
      and u: "updates (min dt 0.1) now (s\<lparr>animationTime := animationTime s + min dt 0.1\<rparr>) = Some s5"
      and c: "checkLevelCompletion s5 = Some s'" and k: "keeps s s5" by blast
    from k have lv: "currentLevel s5 = currentLevel s" by (simp add: keeps_def)
    from checkLevelCompletion_cases[OF c] show ?thesis
    proof
      assume a: "s' = nextLevel s5 \<and> (\<exists>g p. exitGate s5 = Some g \<and> gateOpen s5 \<and> player s5 = Some p \<and> distanceTo p g < 3)"
      then have "currentLevel s' \<noteq> currentLevel s" using lv by (simp add: nextLevel_level)
      moreover from a st u Frame have
        "\<exists>dt now s5 g p. ev = Frame dt now \<and> state s = PLAYING \<and>
                updates (min dt 0.1) now (s\<lparr>animationTime := animationTime s + min dt 0.1\<rparr>)
                  = Some s5 \<and>
                exitGate s5 = Some g \<and> gateOpen s5 \<and> player s5 = Some p \<and> distanceTo p g < 3"
        by blast
      ultimately show ?thesis by blast
    next
      assume a: "s' = s5 \<and> \<not> (\<exists>g p. exitGate s5 = Some g \<and> gateOpen s5 \<and> player s5 = Some p \<and> distanceTo p g < 3)"
      then have "currentLevel s' = currentLevel s" using lv by simp
      moreover from a u Frame have
        "\<not> (\<exists>dt now s5 g p. ev = Frame dt now \<and> state s = PLAYING \<and>
                updates (min dt 0.1) now (s\<lparr>animationTime := animationTime s + min dt 0.1\<rparr>)
                  = Some s5 \<and>
                exitGate s5 = Some g \<and> gateOpen s5 \<and> player s5 = Some p \<and> distanceTo p g < 3)"
        by auto
      ultimately show ?thesis using Frame by auto
    qed
  qed
next
  case (Fire k)
  with assms have "fire k s = Some s'" by (simp add: step_def)
  from fire_level(1)[OF this] Fire show ?thesis by auto
qed

text \<open>Witness: the pending timer of an opened gate fires.\<close>

theorem level_advance_paths_witness:
  "step (Fire 1) (gateOpened (- 12.25)) =
     Some (nextLevel ((gateOpened (- 12.25))\<lparr>pending := [GateAnimate 7.5]\<rparr>)) \<and>
   pending (gateOpened (- 12.25)) ! 1 = NextLevelTimer \<and>
   currentLevel (nextLevel ((gateOpened (- 12.25))\<lparr>pending := [GateAnimate 7.5]\<rparr>))
     \<noteq> currentLevel (gateOpened (- 12.25))"
proof -
  let ?s' = "nextLevel ((gateOpened (- 12.25))\<lparr>pending := [GateAnimate 7.5]\<rparr>)"
  have a: "step (Fire 1) (gateOpened (- 12.25)) = Some ?s'"
    by (simp add: step_def fire_def gateOpened_fields runCallback_def splice1_def)
  from level_advance_paths[OF a] show ?thesis
    using a by (simp add: gateOpened_fields)
qed

text \<open>
  Counterexample to C3 as stated: the gate of level 1 is opened from a spot more than 3
  away from the gate mesh, the completion check leaves the level alone, and the pending
  timer still advances the level to 2.
\<close>

theorem timer_advances_far_from_gate:
  "tryInteract (atGate (- 12.25)) = Some (gateOpened (- 12.25)) \<and>
   state (gateOpened (- 12.25)) = PLAYING \<and> currentLevel (gateOpened (- 12.25)) = 1 \<and>
   \<not> distanceTo (vec 35 1 (- 12.25)) (vec 35 2.6 (- 15)) < 3 \<and>
   checkLevelCompletion (gateOpened (- 12.25)) = Some (gateOpened (- 12.25)) \<and>
   map_option currentLevel (fire 1 (gateOpened (- 12.25))) = Some 2"
proof -
  have far: "\<not> distanceToSquared (vec 35 1 (- 12.25)) (vec 35 2.6 (- 15)) < 9"
    by (simp add: distanceToSquared_def vec_def)
  have a: "tryInteract (atGate (- 12.25)) = Some (gateOpened (- 12.25))"
    by (rule tryInteract_atGate) (simp add: distanceToSquared_def vec_def)
  have b: "checkLevelCompletion (gateOpened (- 12.25)) = Some (gateOpened (- 12.25))"
    by (rule completion_far) (rule far)
  have c: "map_option currentLevel (fire 1 (gateOpened (- 12.25))) = Some 2"
    by (simp add: fire_def gateOpened_fields runCallback_def nextLevel_def loadLevel_frame)
  from far a b c show ?thesis by (simp add: gateOpened_fields distanceTo_less_iff)
qed

text \<open>
  C4 fails on the code. The gate of level 1 is opened from a spot closer than 3 to the
  gate: the completion check of the next frame loads level 2, whose gate is closed and
  whose puzzle is unsolved. The timer of level 1 is still pending; when it fires it calls
  \<open>nextLevel\<close> again and the game is on level 3. The pending \<open>animate\<close> closure of level
  1, when it runs, lifts the gate of level 2.
\<close>

theorem stale_timer_skips_level:
  "tryInteract (atGate (- 13)) = Some (gateOpened (- 13)) \<and>
   checkLevelCompletion (gateOpened (- 13)) = Some (temple (- 13)) \<and>
   currentLevel (temple (- 13)) = 2 \<and> gateOpen (temple (- 13)) = False \<and>
   puzzleSolved (temple (- 13)) = False \<and>
   pending (temple (- 13)) ! 1 = NextLevelTimer \<and>
   map_option currentLevel (fire 1 (temple (- 13))) = Some 3 \<and>
   map_option exitGate (fire 0 (temple (- 13))) = Some (Some (vec 0 6.6 (- 40)))"
proof -
  have a: "tryInteract (atGate (- 13)) = Some (gateOpened (- 13))"
    by (rule tryInteract_atGate) (simp add: distanceToSquared_def vec_def)
  have b: "checkLevelCompletion (gateOpened (- 13)) = Some (temple (- 13))"
    by (rule completion_near) (simp add: distanceToSquared_def vec_def)
  have c: "map_option currentLevel (fire 1 (temple (- 13))) = Some 3"
    by (simp add: fire_def temple_fields runCallback_def nextLevel_def loadLevel_frame)
  have d: "map_option exitGate (fire 0 (temple (- 13))) = Some (Some (vec 0 6.6 (- 40)))"
    by (simp add: fire_def temple_fields runCallback_def animate_def vec_def)
  from a b c d show ?thesis by (simp add: temple_fields)
qed

subsection \<open>Health and ammunition\<close>

text \<open>
  C2, as amended. In every state reached from the constructor by any sequence of events,
  \<open>health \<le> maxHealth\<close> and \<open>0 \<le> ammo \<le> maxAmmo\<close>; \<open>collectItem\<close> never takes health
  above \<open>maxHealth\<close> or ammo above \<open>maxAmmo\<close>, and \<open>shoot\<close> never takes ammo below 0.
  (No lower bound on health: \<open>takeDamage\<close> subtracts the whole amount.)
\<close>

theorem stats_within_caps:
  "(run evs constructor = Some s \<longrightarrow>
      health s \<le> maxHealth s \<and> 0 \<le> ammo s \<and> ammo s \<le> maxAmmo s) \<and>
   (collectItem i t = Some t' \<longrightarrow> health t \<le> maxHealth t \<longrightarrow> ammo t \<le> maxAmmo t \<longrightarrow>
      health t' \<le> maxHealth t' \<and> ammo t' \<le> maxAmmo t') \<and>
   (shoot now t = Some t' \<longrightarrow> 0 \<le> ammo t \<longrightarrow> 0 \<le> ammo t')"
proof -
  have a: "run evs constructor = Some s \<longrightarrow>
      health s \<le> maxHealth s \<and> 0 \<le> ammo s \<and> ammo s \<le> maxAmmo s"
    using run_statsOk[OF _ statsOk_constructor, of evs s] by (simp add: statsOk_def)
  have b: "collectItem i t = Some t' \<longrightarrow> health t \<le> maxHealth t \<longrightarrow> ammo t \<le> maxAmmo t \<longrightarrow>
      health t' \<le> maxHealth t' \<and> ammo t' \<le> maxAmmo t'"
    by (auto simp: collectItem_def Let_def split: if_splits)
  have c: "shoot now t = Some t' \<longrightarrow> 0 \<le> ammo t \<longrightarrow> 0 \<le> ammo t'"
    by (auto simp: shoot_def Let_def split: if_splits option.splits)
  from a b c show ?thesis by blast
qed

text \<open>
  Witness: restart, lock the pointer, shoot once (ammo 29); from there the first ammo box
  of level 1 fills the ammo up to the cap of 30, and a second shot leaves 28.
\<close>

theorem stats_within_caps_witness:
  "run [ClickRestart, PointerLockChange True, MouseDown 0 1] constructor = Some firstShot \<and>
   health firstShot = 100 \<and> maxHealth firstShot = 100 \<and>
   ammo firstShot = 29 \<and> maxAmmo firstShot = 30 \<and>
   (\<exists>t'. collectItem 0 firstShot = Some t' \<and> ammo t' = 30 \<and>
         health t' \<le> maxHealth t' \<and> ammo t' \<le> maxAmmo t') \<and>
   (\<exists>t'. shoot 2 firstShot = Some t' \<and> ammo t' = 28 \<and> 0 \<le> ammo t')"
proof -
  note r = run_firstShot
  note f = firstShot_fields
  from stats_within_caps[where evs="[ClickRestart, PointerLockChange True, MouseDown 0 1]" and s=firstShot] r
  have a: "health firstShot \<le> maxHealth firstShot \<and> 0 \<le> ammo firstShot \<and>
        ammo firstShot \<le> maxAmmo firstShot" by blast
  obtain c where c: "collectItem 0 firstShot = Some c" and c30: "ammo c = 30"
    by (simp add: collectItem_def f Let_def)
  from stats_within_caps[where i=0 and t=firstShot and t'=c] c
  have b: "health c \<le> maxHealth c \<and> ammo c \<le> maxAmmo c" by (simp add: f)
  obtain d where d: "shoot 2 firstShot = Some d" and d28: "ammo d = 28"
    by (simp add: shoot_def f Let_def)
  from stats_within_caps[where now=2 and t=firstShot and t'=d] d
  have e: "0 \<le> ammo d" by (simp add: f)
  from r a b c c30 d d28 e show ?thesis by (simp add: f)
qed

text \<open>
  Counterexample to C2 as stated: seven hits of 15 (the damage of an ice spirit's
  projectile) take the health from 100 to 10 and then to -5.
\<close>

theorem takeDamage_below_zero:
  "health ((takeDamage 15 ^^ 6) constructor) = 10 \<and>
   health ((takeDamage 15 ^^ 7) constructor) = - 5 \<and>
   state ((takeDamage 15 ^^ 7) constructor) = GAME_OVER"
  by (simp add: numeral_eq_Suc takeDamage_def gameOver_def constructor_def Let_def)

end
